theory Spec2Isabelle
  imports Main "HOL-Library.AList"
begin

unbundle bit_operations_syntax

section \<open>Python values shared by the models\<close>

text \<open>
  Exceptions of the source are values.  \<open>KeyError\<close>, \<open>StopIteration\<close>, \<open>RuntimeError\<close>,
  \<open>TypeError\<close> and \<open>ValidationError\<close> are raised by the Python code itself;
  \<open>ProgrammingError\<close> and \<open>IntegrityError\<close> are raised by the relational store client.
\<close>

datatype error =
    KeyError
  | StopIteration
  | RuntimeError
  | TypeError
  | ValidationError
  | ProgrammingError
  | IntegrityError

text \<open>
  A Python \<open>dict\<close> keeps its keys in insertion order: it is an association list whose
  keys are pairwise different.  \<open>d[k] = v\<close> is \<^const>\<open>AList.update\<close> (a present key keeps
  its position, a new key goes to the end), \<open>d.get(k)\<close> is \<^const>\<open>map_of\<close>,
  \<open>del d[k]\<close> on a present key is \<^const>\<open>AList.delete\<close> and \<open>len(d)\<close> is
  \<^const>\<open>length\<close>.
\<close>

type_synonym ('k, 'v) pydict = "('k \<times> 'v) list"

definition dict_get :: "('k, 'v) pydict \<Rightarrow> 'k \<Rightarrow> 'v option" where
  "dict_get d k = map_of d k"

definition dict_setitem :: "'k \<Rightarrow> 'v \<Rightarrow> ('k, 'v) pydict \<Rightarrow> ('k, 'v) pydict" where
  "dict_setitem k v d = AList.update k v d"

text \<open>\<open>del d[k]\<close> raises \<open>KeyError\<close> when the key is absent.\<close>

definition dict_delitem :: "'k \<Rightarrow> ('k, 'v) pydict \<Rightarrow> error + ('k, 'v) pydict" where
  "dict_delitem k d = (if k \<in> fst ` set d then Inr (AList.delete k d) else Inl KeyError)"

text \<open>\<open>next(iter(d))\<close> is the first key; it raises \<open>StopIteration\<close> on an empty dict.\<close>

definition dict_first_key :: "('k, 'v) pydict \<Rightarrow> error + 'k" where
  "dict_first_key d = (case d of [] \<Rightarrow> Inl StopIteration | p # _ \<Rightarrow> Inr (fst p))"

subsection \<open>\<open>str\<close> of an integer\<close>

definition digit_char :: "nat \<Rightarrow> char" where
  "digit_char n = char_of (48 + n)"

function str_nat :: "nat \<Rightarrow> string" where
  "str_nat n = (if n < 10 then [digit_char n] else str_nat (n div 10) @ [digit_char (n mod 10)])"
  by pat_completeness auto
termination
  by (relation "measure id") auto

declare str_nat.simps [simp del]

definition str_int :: "int \<Rightarrow> string" where
  "str_int i = (if i < 0 then CHR ''-'' # str_nat (nat (- i)) else str_nat (nat i))"

section \<open>The memory caches (\<open>rgdps/utilities/cache/memory.py\<close>)\<close>

text \<open>\<open>KeyType\<close>: a cache key is an integer or a string.\<close>

datatype key = IntKey int | StrKey string

fun ensure_key_type :: "key \<Rightarrow> string" where
  "ensure_key_type (IntKey i) = str_int i"
| "ensure_key_type (StrKey s) = s"

text \<open>
  The cached values are references to objects, so that the effect of \<open>copy\<close> and of a
  caller mutating an object can be read off the model.  The object store maps an address
  to the object's contents and knows the next free address.  \<open>copy(obj)\<close> allocates a new
  object with the same contents.  The type parameter \<open>T\<close> of the caches ranges over object
  references: \<open>None\<close> is not a \<open>T\<close>, it is what \<open>get\<close> returns for a miss.
\<close>

type_synonym addr = nat

record 'v heap =
  cells :: "addr \<Rightarrow> 'v"
  next_addr :: addr

definition copy :: "'v heap \<Rightarrow> addr \<Rightarrow> 'v heap \<times> addr" where
  "copy h a = (h\<lparr>cells := (cells h)(next_addr h := cells h a), next_addr := Suc (next_addr h)\<rparr>,
               next_addr h)"

text \<open>What a caller does when it mutates the object behind a reference it holds.\<close>

definition mutate :: "'v heap \<Rightarrow> addr \<Rightarrow> 'v \<Rightarrow> 'v heap" where
  "mutate h a v = h\<lparr>cells := (cells h)(a := v)\<rparr>"

subsection \<open>\<open>SimpleMemoryCache\<close> and \<open>SimpleAsyncMemoryCache\<close>\<close>

type_synonym simple_cache = "(string, addr) pydict"

definition SimpleMemoryCache_get ::
  "simple_cache \<Rightarrow> 'v heap \<Rightarrow> key \<Rightarrow> addr option \<times> 'v heap" where
  "SimpleMemoryCache_get c h k =
     (case dict_get c (ensure_key_type k) of
        None \<Rightarrow> (None, h)
      | Some obj_db \<Rightarrow> (let (h', a) = copy h obj_db in (Some a, h')))"

definition SimpleMemoryCache_set :: "simple_cache \<Rightarrow> key \<Rightarrow> addr \<Rightarrow> simple_cache" where
  "SimpleMemoryCache_set c k v = dict_setitem (ensure_key_type k) v c"

definition SimpleMemoryCache_delete :: "simple_cache \<Rightarrow> key \<Rightarrow> simple_cache" where
  "SimpleMemoryCache_delete c k =
     (case dict_delitem (ensure_key_type k) c of Inl e \<Rightarrow> c | Inr c' \<Rightarrow> c')"

definition SimpleAsyncMemoryCache_get :: "simple_cache \<Rightarrow> key \<Rightarrow> addr option" where
  "SimpleAsyncMemoryCache_get c k = dict_get c (ensure_key_type k)"

definition SimpleAsyncMemoryCache_set :: "simple_cache \<Rightarrow> key \<Rightarrow> addr \<Rightarrow> simple_cache" where
  "SimpleAsyncMemoryCache_set c k v = dict_setitem (ensure_key_type k) v c"

definition SimpleAsyncMemoryCache_delete :: "simple_cache \<Rightarrow> key \<Rightarrow> simple_cache" where
  "SimpleAsyncMemoryCache_delete c k =
     (case dict_delitem (ensure_key_type k) c of Inl e \<Rightarrow> c | Inr c' \<Rightarrow> c')"

subsection \<open>\<open>LRUMemoryCache\<close> and \<open>LRUAsyncMemoryCache\<close>\<close>

record lru_cache =
  capacity :: int
  cache :: "(string, addr) pydict"

definition lru_init :: "int \<Rightarrow> lru_cache" where
  "lru_init c = \<lparr>capacity = c, cache = []\<rparr>"

text \<open>
  The loop of \<open>set\<close>: \<open>while len(self._cache) >= self._capacity:
  del self._cache[next(iter(self._cache))]\<close>.  With a capacity below 1 the loop empties the
  dict and then \<open>next\<close> raises \<open>StopIteration\<close>.
\<close>

function evict :: "int \<Rightarrow> (string, addr) pydict \<Rightarrow> error + (string, addr) pydict" where
  "evict cap d =
     (if int (length d) \<ge> cap then
        (case dict_first_key d of
           Inl e \<Rightarrow> Inl e
         | Inr k \<Rightarrow> evict cap (AList.delete k d))
      else Inr d)"
  by pat_completeness auto
termination
proof (relation "measure (\<lambda>(cap, d). length d)")
  show "wf (measure (\<lambda>(cap, d). length d))" by simp
next
  fix cap :: int and d :: "(string, addr) pydict" and k
  assume "dict_first_key d = Inr k"
  then obtain p ps where d: "d = p # ps" and k: "k = fst p"
    by (auto simp: dict_first_key_def split: list.splits)
  have "length (AList.delete (fst p) ps) \<le> length ps"
    by (rule length_delete_le)
  then show "((cap, AList.delete k d), (cap, d)) \<in> measure (\<lambda>(cap, d). length d)"
    by (simp add: d k)
qed

declare evict.simps [simp del]

definition LRUMemoryCache_get ::
  "lru_cache \<Rightarrow> 'v heap \<Rightarrow> key \<Rightarrow> addr option \<times> lru_cache \<times> 'v heap" where
  "LRUMemoryCache_get c h k =
     (let key_str = ensure_key_type k in
      case dict_get (cache c) key_str of
        None \<Rightarrow> (None, c, h)
      | Some v \<Rightarrow>
          (let c' = c\<lparr>cache := dict_setitem key_str v (AList.delete key_str (cache c))\<rparr>;
               (h', a) = copy h v
           in (Some a, c', h')))"

definition LRUMemoryCache_set :: "lru_cache \<Rightarrow> key \<Rightarrow> addr \<Rightarrow> error + lru_cache" where
  "LRUMemoryCache_set c k v =
     (case evict (capacity c) (cache c) of
        Inl e \<Rightarrow> Inl e
      | Inr d \<Rightarrow> Inr (c\<lparr>cache := dict_setitem (ensure_key_type k) v d\<rparr>))"

definition LRUMemoryCache_delete :: "lru_cache \<Rightarrow> key \<Rightarrow> lru_cache" where
  "LRUMemoryCache_delete c k =
     (case dict_delitem (ensure_key_type k) (cache c) of
        Inl e \<Rightarrow> c
      | Inr d \<Rightarrow> c\<lparr>cache := d\<rparr>)"

definition LRUAsyncMemoryCache_get :: "lru_cache \<Rightarrow> key \<Rightarrow> addr option \<times> lru_cache" where
  "LRUAsyncMemoryCache_get c k =
     (let key_str = ensure_key_type k in
      case dict_get (cache c) key_str of
        None \<Rightarrow> (None, c)
      | Some v \<Rightarrow> (Some v, c\<lparr>cache := dict_setitem key_str v (AList.delete key_str (cache c))\<rparr>))"

text \<open>
  A \<open>StopIteration\<close> that escapes the body of a coroutine reaches the caller as a
  \<open>RuntimeError\<close>.
\<close>

definition LRUAsyncMemoryCache_set :: "lru_cache \<Rightarrow> key \<Rightarrow> addr \<Rightarrow> error + lru_cache" where
  "LRUAsyncMemoryCache_set c k v =
     (case evict (capacity c) (cache c) of
        Inl e \<Rightarrow> Inl (if e = StopIteration then RuntimeError else e)
      | Inr d \<Rightarrow> Inr (c\<lparr>cache := dict_setitem (ensure_key_type k) v d\<rparr>))"

definition LRUAsyncMemoryCache_delete :: "lru_cache \<Rightarrow> key \<Rightarrow> lru_cache" where
  "LRUAsyncMemoryCache_delete c k =
     (case dict_delitem (ensure_key_type k) (cache c) of
        Inl e \<Rightarrow> c
      | Inr d \<Rightarrow> c\<lparr>cache := d\<rparr>)"

subsection \<open>Sequences of cache operations\<close>

text \<open>A caller's sequence of calls; an exception ends the sequence.\<close>

datatype cache_op = Get key | Set key addr | Delete key

fun LRUMemoryCache_step ::
  "lru_cache \<times> 'v heap \<Rightarrow> cache_op \<Rightarrow> error + lru_cache \<times> 'v heap" where
  "LRUMemoryCache_step (c, h) (Get k) =
     (case LRUMemoryCache_get c h k of (r, c', h') \<Rightarrow> Inr (c', h'))"
| "LRUMemoryCache_step (c, h) (Set k v) =
     (case LRUMemoryCache_set c k v of Inl e \<Rightarrow> Inl e | Inr c' \<Rightarrow> Inr (c', h))"
| "LRUMemoryCache_step (c, h) (Delete k) = Inr (LRUMemoryCache_delete c k, h)"

fun LRUMemoryCache_run ::
  "lru_cache \<times> 'v heap \<Rightarrow> cache_op list \<Rightarrow> error + lru_cache \<times> 'v heap" where
  "LRUMemoryCache_run s [] = Inr s"
| "LRUMemoryCache_run s (x # xs) =
     (case LRUMemoryCache_step s x of Inl e \<Rightarrow> Inl e | Inr s' \<Rightarrow> LRUMemoryCache_run s' xs)"

fun LRUAsyncMemoryCache_step :: "lru_cache \<Rightarrow> cache_op \<Rightarrow> error + lru_cache" where
  "LRUAsyncMemoryCache_step c (Get k) = Inr (snd (LRUAsyncMemoryCache_get c k))"
| "LRUAsyncMemoryCache_step c (Set k v) = LRUAsyncMemoryCache_set c k v"
| "LRUAsyncMemoryCache_step c (Delete k) = Inr (LRUAsyncMemoryCache_delete c k)"

fun LRUAsyncMemoryCache_run :: "lru_cache \<Rightarrow> cache_op list \<Rightarrow> error + lru_cache" where
  "LRUAsyncMemoryCache_run c [] = Inr c"
| "LRUAsyncMemoryCache_run c (x # xs) =
     (case LRUAsyncMemoryCache_step c x of
        Inl e \<Rightarrow> Inl e
      | Inr c' \<Rightarrow> LRUAsyncMemoryCache_run c' xs)"

text \<open>Inserting a list of key/value pairs, one \<open>set\<close> after the other.\<close>

fun LRUMemoryCache_set_all :: "lru_cache \<Rightarrow> (key \<times> addr) list \<Rightarrow> error + lru_cache" where
  "LRUMemoryCache_set_all c [] = Inr c"
| "LRUMemoryCache_set_all c ((k, v) # kvs) =
     (case LRUMemoryCache_set c k v of
        Inl e \<Rightarrow> Inl e
      | Inr c' \<Rightarrow> LRUMemoryCache_set_all c' kvs)"

text \<open>What a caller reads in the object that a \<open>get\<close> returned (nothing after a miss).\<close>

definition observed :: "'v heap \<Rightarrow> addr option \<Rightarrow> 'v option" where
  "observed h r = map_option (cells h) r"

section \<open>Python objects of the level repository (\<open>ognisko/resources/level.py\<close>)\<close>

text \<open>
  Modelled from the spec: \<open>datetime\<close> and the helpers \<open>time_utils.into_unix_ts\<close> and
  \<open>time_utils.from_unix_ts\<close> are not in the sources.  Following "timestamps are stored as
  integer epoch seconds, not a structured date", a datetime is given by its whole seconds
  since the epoch and its microseconds; \<open>into_unix_ts\<close> keeps the whole seconds and
  \<open>from_unix_ts\<close> builds the datetime of a whole second.
\<close>

datatype datetime = Datetime int nat

datatype pyval =
    PNone
  | PBool bool
  | PInt int
  | PStr string
  | PDatetime datetime
  | PList "pyval list"

type_synonym pyobj = "(string, pyval) pydict"

fun into_unix_ts :: "pyval \<Rightarrow> error + pyval" where
  "into_unix_ts (PDatetime (Datetime secs micros)) = Inr (PInt secs)"
| "into_unix_ts _ = Inl TypeError"

fun from_unix_ts :: "pyval \<Rightarrow> error + pyval" where
  "from_unix_ts (PInt secs) = Inr (PDatetime (Datetime secs 0))"
| "from_unix_ts _ = Inl TypeError"

text \<open>The truth value of an object, as \<open>if x:\<close> and \<open>not x\<close> take it.\<close>

fun truthy :: "pyval \<Rightarrow> bool" where
  "truthy PNone = False"
| "truthy (PBool b) = b"
| "truthy (PInt n) = (n \<noteq> 0)"
| "truthy (PStr s) = (s \<noteq> [])"
| "truthy (PDatetime t) = True"
| "truthy (PList xs) = (xs \<noteq> [])"

text \<open>\<open>d[k]\<close> raises \<open>KeyError\<close> when the key is absent; \<open>k in d\<close>.\<close>

definition dict_getitem :: "('k, 'v) pydict \<Rightarrow> 'k \<Rightarrow> error + 'v" where
  "dict_getitem d k = (case dict_get d k of None \<Rightarrow> Inl KeyError | Some v \<Rightarrow> Inr v)"

definition dict_contains :: "'k \<Rightarrow> ('k, 'v) pydict \<Rightarrow> bool" where
  "dict_contains k d = (dict_get d k \<noteq> None)"

text \<open>Sequencing of steps that may raise.\<close>

definition err_bind :: "error + 'a \<Rightarrow> ('a \<Rightarrow> error + 'b) \<Rightarrow> error + 'b" where
  "err_bind m f = (case m of Inl e \<Rightarrow> Inl e | Inr x \<Rightarrow> f x)"

subsection \<open>\<open>LevelSearchFlag\<close> and the other enumerations\<close>

text \<open>The members of an \<open>IntEnum\<close> or \<open>IntFlag\<close> are integers; they are modelled as such.\<close>

definition LevelSearchFlag_NONE :: int where "LevelSearchFlag_NONE = 0"
definition LevelSearchFlag_EPIC :: int where "LevelSearchFlag_EPIC = push_bit 0 1"
definition LevelSearchFlag_AWARDED :: int where "LevelSearchFlag_AWARDED = push_bit 1 1"
definition LevelSearchFlag_MAGIC :: int where "LevelSearchFlag_MAGIC = push_bit 2 1"
definition LevelSearchFlag_LEGENDARY :: int where "LevelSearchFlag_LEGENDARY = push_bit 3 1"
definition LevelSearchFlag_MYTHICAL :: int where "LevelSearchFlag_MYTHICAL = push_bit 4 1"

definition LevelPublicity_PUBLIC :: int where "LevelPublicity_PUBLIC = 0"

definition LevelLength_values :: "int list" where
  "LevelLength_values = [0, 1, 2, 3, 4, 5]"

definition LevelPublicity_values :: "int list" where
  "LevelPublicity_values = [0, 1, 2]"

definition LevelDifficulty_values :: "int list" where
  "LevelDifficulty_values = [0, 10, 20, 30, 40, 50]"

definition LevelDemonDifficulty_values :: "int list" where
  "LevelDemonDifficulty_values = [0, 3, 4, 5, 6]"

subsection \<open>The class \<open>Level\<close>\<close>

text \<open>
  A \<open>Level\<close> object is given by the values of its declared fields, in the order of the
  declaration: it is modelled as that dict, so \<open>model_dump\<close> is the identity and an
  attribute assignment is an item assignment.  \<open>Level(**d)\<close> takes each declared field from
  \<open>d\<close> and raises \<open>ValidationError\<close> when a field is missing or its value is not of the
  declared type.
\<close>

datatype ftype =
    TInt
  | TStr
  | TBool
  | TDatetime
  | TEnum "int list"
  | TFlag
  | TOptional ftype
  | TList ftype

fun conforms :: "ftype \<Rightarrow> pyval \<Rightarrow> bool" where
  "conforms TInt v = (case v of PInt n \<Rightarrow> True | _ \<Rightarrow> False)"
| "conforms TStr v = (case v of PStr s \<Rightarrow> True | _ \<Rightarrow> False)"
| "conforms TBool v = (case v of PBool b \<Rightarrow> True | _ \<Rightarrow> False)"
| "conforms TDatetime v = (case v of PDatetime t \<Rightarrow> True | _ \<Rightarrow> False)"
| "conforms (TEnum members) v = (case v of PInt n \<Rightarrow> n \<in> set members | _ \<Rightarrow> False)"
| "conforms TFlag v = (case v of PInt n \<Rightarrow> True | _ \<Rightarrow> False)"
| "conforms (TOptional t) v = (v = PNone \<or> conforms t v)"
| "conforms (TList t) v = (case v of PList xs \<Rightarrow> list_all (conforms t) xs | _ \<Rightarrow> False)"

definition Level_fields :: "(string \<times> ftype) list" where
  "Level_fields =
    [(''id'', TInt),
     (''name'', TStr),
     (''user_id'', TInt),
     (''description'', TStr),
     (''custom_song_id'', TOptional TInt),
     (''official_song_id'', TOptional TInt),
     (''version'', TInt),
     (''length'', TEnum LevelLength_values),
     (''two_player'', TBool),
     (''publicity'', TEnum LevelPublicity_values),
     (''render_str'', TStr),
     (''game_version'', TInt),
     (''binary_version'', TInt),
     (''upload_ts'', TDatetime),
     (''update_ts'', TDatetime),
     (''original_id'', TOptional TInt),
     (''downloads'', TInt),
     (''likes'', TInt),
     (''stars'', TInt),
     (''difficulty'', TEnum LevelDifficulty_values),
     (''demon_difficulty'', TOptional (TEnum LevelDemonDifficulty_values)),
     (''coins'', TInt),
     (''coins_verified'', TBool),
     (''requested_stars'', TInt),
     (''feature_order'', TInt),
     (''search_flags'', TFlag),
     (''low_detail_mode'', TBool),
     (''object_count'', TInt),
     (''building_time'', TInt),
     (''update_locked'', TBool),
     (''song_ids'', TList TInt),
     (''sfx_ids'', TList TInt),
     (''deleted'', TBool)]"

type_synonym level = pyobj

fun init_fields :: "(string \<times> ftype) list \<Rightarrow> pyobj \<Rightarrow> pyobj option" where
  "init_fields [] d = Some []"
| "init_fields ((f, t) # fs) d =
     (case dict_get d f of
        None \<Rightarrow> None
      | Some v \<Rightarrow>
          if conforms t v
          then (case init_fields fs d of None \<Rightarrow> None | Some l \<Rightarrow> Some ((f, v) # l))
          else None)"

definition Level_init :: "pyobj \<Rightarrow> error + level" where
  "Level_init d =
     (case init_fields Level_fields d of None \<Rightarrow> Inl ValidationError | Some l \<Rightarrow> Inr l)"

definition model_dump :: "level \<Rightarrow> pyobj" where
  "model_dump l = l"

text \<open>
  Modelled from the spec: \<open>modelling.get_model_fields\<close>, \<open>modelling.comma_separated\<close> and
  \<open>modelling.unpack_enum_types\<close> are not in the sources.  \<open>ALL_FIELDS\<close> are the names of the
  declared fields, \<open>comma_separated\<close> joins them with \<open>", "\<close>, and \<open>unpack_enum_types\<close>
  replaces the members of enumerations by their integers, which they already are here.
\<close>

definition ALL_FIELDS :: "string list" where
  "ALL_FIELDS = map fst Level_fields"

fun comma_separated :: "string list \<Rightarrow> string" where
  "comma_separated [] = []"
| "comma_separated [x] = x"
| "comma_separated (x # y # ys) = x @ '', '' @ comma_separated (y # ys)"

definition ALL_FIELDS_COMMA :: string where
  "ALL_FIELDS_COMMA = comma_separated ALL_FIELDS"

definition unpack_enum_types :: "pyobj \<Rightarrow> pyobj" where
  "unpack_enum_types kwargs = kwargs"

subsection \<open>\<open>_make_meili_dict\<close> and \<open>_from_meili_dict\<close>\<close>

text \<open>\<open>bool(x & FLAG)\<close>; \<open>&\<close> raises \<open>TypeError\<close> on anything but integers and booleans.\<close>

definition flag_set :: "pyval \<Rightarrow> int \<Rightarrow> error + pyval" where
  "flag_set x flag =
     (case x of
        PInt n \<Rightarrow> Inr (PBool (n AND flag \<noteq> 0))
      | PBool b \<Rightarrow> Inr (PBool ((if b then 1 else 0) AND flag \<noteq> 0))
      | _ \<Rightarrow> Inl TypeError)"

definition make_meili_dict :: "pyobj \<Rightarrow> error + pyobj" where
  "make_meili_dict level_dict =
     err_bind
       (if dict_contains ''upload_ts'' level_dict
        then err_bind (err_bind (dict_getitem level_dict ''upload_ts'') into_unix_ts)
               (\<lambda>ts. Inr (dict_setitem ''upload_ts'' ts level_dict))
        else Inr level_dict)
     (\<lambda>d1. err_bind
       (if dict_contains ''update_ts'' d1
        then err_bind (err_bind (dict_getitem d1 ''update_ts'') into_unix_ts)
               (\<lambda>ts. Inr (dict_setitem ''update_ts'' ts d1))
        else Inr d1)
     (\<lambda>d2.
       if dict_contains ''search_flags'' d2
       then
         err_bind (err_bind (dict_getitem d2 ''search_flags'')
                     (\<lambda>x. flag_set x LevelSearchFlag_EPIC)) (\<lambda>epic.
         let d3 = dict_setitem ''epic'' epic d2 in
         err_bind (err_bind (dict_getitem d3 ''search_flags'')
                     (\<lambda>x. flag_set x LevelSearchFlag_MAGIC)) (\<lambda>magic.
         let d4 = dict_setitem ''magic'' magic d3 in
         err_bind (err_bind (dict_getitem d4 ''search_flags'')
                     (\<lambda>x. flag_set x LevelSearchFlag_AWARDED)) (\<lambda>awarded.
         let d5 = dict_setitem ''awarded'' awarded d4 in
         err_bind (err_bind (dict_getitem d5 ''search_flags'')
                     (\<lambda>x. flag_set x LevelSearchFlag_LEGENDARY)) (\<lambda>legendary.
         let d6 = dict_setitem ''legendary'' legendary d5 in
         err_bind (err_bind (dict_getitem d6 ''search_flags'')
                     (\<lambda>x. flag_set x LevelSearchFlag_MYTHICAL)) (\<lambda>mythical.
         Inr (dict_setitem ''mythical'' mythical d6))))))
       else Inr d2))"

text \<open>\<open>if level_dict[k]: search_flags |= FLAG\<close>.\<close>

definition or_flag :: "pyobj \<Rightarrow> string \<Rightarrow> int \<Rightarrow> int \<Rightarrow> error + int" where
  "or_flag d k flag search_flags =
     err_bind (dict_getitem d k) (\<lambda>v. Inr (if truthy v then search_flags OR flag else search_flags))"

definition from_meili_dict :: "pyobj \<Rightarrow> error + pyobj" where
  "from_meili_dict level_dict =
     err_bind (err_bind (dict_getitem level_dict ''upload_ts'') from_unix_ts) (\<lambda>upload_ts.
     let d1 = dict_setitem ''upload_ts'' upload_ts level_dict in
     err_bind (err_bind (dict_getitem d1 ''update_ts'') from_unix_ts) (\<lambda>update_ts.
     let d2 = dict_setitem ''update_ts'' update_ts d1 in
     err_bind (or_flag d2 ''epic'' LevelSearchFlag_EPIC LevelSearchFlag_NONE) (\<lambda>f1.
     err_bind (or_flag d2 ''magic'' LevelSearchFlag_MAGIC f1) (\<lambda>f2.
     err_bind (or_flag d2 ''awarded'' LevelSearchFlag_AWARDED f2) (\<lambda>f3.
     err_bind (or_flag d2 ''legendary'' LevelSearchFlag_LEGENDARY f3) (\<lambda>f4.
     err_bind (or_flag d2 ''mythical'' LevelSearchFlag_MYTHICAL f4) (\<lambda>search_flags.
     let d3 = dict_setitem ''search_flags'' (PInt search_flags) d2 in
     err_bind (dict_delitem ''epic'' d3) (\<lambda>d4.
     err_bind (dict_delitem ''magic'' d4) (\<lambda>d5.
     err_bind (dict_delitem ''awarded'' d5) (\<lambda>d6.
     err_bind (dict_delitem ''legendary'' d6) (\<lambda>d7.
     err_bind (dict_delitem ''mythical'' d7) (\<lambda>d8.
     if \<not> dict_contains ''song_ids'' d8
     then err_bind (dict_getitem d8 ''custom_song_id'') (\<lambda>custom_song_id.
            Inr (dict_setitem ''sfx_ids'' (PList [])
                   (dict_setitem ''song_ids'' (PList [custom_song_id]) d8)))
     else Inr d8))))))))))))"

section \<open>The relational store and the search index\<close>

text \<open>
  Modelled from the spec: the relational store client (\<open>AbstractMySQLService\<close>) and the
  search index client (\<open>MeiliSearchClient\<close>) are not in the sources.  Following section 6
  of the spec, the relational store holds tables of rows, \<open>execute\<close> returns the last insert
  id of an \<open>INSERT\<close> and the number of affected rows of an \<open>UPDATE\<close>, \<open>fetch_one\<close>,
  \<open>fetch_all\<close> and \<open>iterate\<close> run a \<open>SELECT\<close> with named parameters, and the search index
  holds documents keyed by \<open>id\<close> with \<open>add_documents\<close>, \<open>update_documents\<close> and \<open>search\<close>.
  A row keeps the parameter values as they were bound.  Whether an \<open>UPDATE\<close> counts the
  rows it matched or the rows it changed is a setting of the connection
  (\<open>client_found_rows\<close>); how the index matches a query text is a parameter
  (\<open>meili_matches\<close>).
\<close>

record state =
  levels_rows :: "pyobj list"
  levels_auto_increment :: int
  user_relationships_rows :: "pyobj list"
  client_found_rows :: bool
  meili_levels :: "pyobj list"
  meili_matches :: "string \<Rightarrow> pyobj \<Rightarrow> bool"

text \<open>SQL compares a boolean as the integer 0 or 1, and \<open>NULL\<close> equals nothing.\<close>

fun sql_value :: "pyval \<Rightarrow> pyval" where
  "sql_value (PBool b) = PInt (if b then 1 else 0)"
| "sql_value v = v"

definition sql_eq :: "pyval \<Rightarrow> pyval \<Rightarrow> bool" where
  "sql_eq a b = (a \<noteq> PNone \<and> b \<noteq> PNone \<and> sql_value a = sql_value b)"

definition column_eq :: "pyobj \<Rightarrow> string \<Rightarrow> pyval \<Rightarrow> bool" where
  "column_eq row col v = (case dict_get row col of None \<Rightarrow> False | Some w \<Rightarrow> sql_eq w v)"

subsection \<open>Reading a \<open>SELECT\<close> statement\<close>

text \<open>
  The store reads statements of the form
  \<open>SELECT columns FROM table [WHERE col = operand [AND col = operand]...] [LIMIT n]\<close>,
  where an operand is a named parameter \<open>:name\<close> or a number; any other text is a syntax
  error (\<open>ProgrammingError\<close>).  The statement is split at spaces.
\<close>

fun split_ws_aux :: "string \<Rightarrow> string \<Rightarrow> string list" where
  "split_ws_aux cur [] = (if cur = [] then [] else [cur])"
| "split_ws_aux cur (c # cs) =
     (if c = CHR '' ''
      then (if cur = [] then split_ws_aux [] cs else cur # split_ws_aux [] cs)
      else split_ws_aux (cur @ [c]) cs)"

definition split_ws :: "string \<Rightarrow> string list" where
  "split_ws s = split_ws_aux [] s"

definition digit_of :: "char \<Rightarrow> nat option" where
  "digit_of c = (let n = (of_char c :: nat) in if 48 \<le> n \<and> n \<le> 57 then Some (n - 48) else None)"

fun parse_digits :: "nat \<Rightarrow> string \<Rightarrow> nat option" where
  "parse_digits acc [] = Some acc"
| "parse_digits acc (c # cs) =
     (case digit_of c of None \<Rightarrow> None | Some n \<Rightarrow> parse_digits (10 * acc + n) cs)"

definition parse_nat :: "string \<Rightarrow> nat option" where
  "parse_nat s = (if s = [] then None else parse_digits 0 s)"

datatype sql_operand = Param string | Const int

type_synonym sql_cond = "string \<times> sql_operand"

definition parse_operand :: "string \<Rightarrow> sql_operand option" where
  "parse_operand t =
     (case t of
        [] \<Rightarrow> None
      | c # cs \<Rightarrow>
          if c = CHR '':'' then (if cs = [] then None else Some (Param cs))
          else map_option (\<lambda>n. Const (int n)) (parse_nat t))"

fun parse_conds :: "string list \<Rightarrow> (sql_cond list \<times> string list) option" where
  "parse_conds (col # eq # v # rest) =
     (if eq = ''='' then
        (case parse_operand v of
           None \<Rightarrow> None
         | Some x \<Rightarrow>
             (case rest of
                [] \<Rightarrow> Some ([(col, x)], [])
              | t # rest' \<Rightarrow>
                  if t = ''AND''
                  then (case parse_conds rest' of
                          None \<Rightarrow> None
                        | Some (cs, r) \<Rightarrow> Some ((col, x) # cs, r))
                  else Some ([(col, x)], rest)))
      else None)"
| "parse_conds _ = None"

definition parse_limit :: "string list \<Rightarrow> nat option option" where
  "parse_limit ts =
     (case ts of
        [] \<Rightarrow> Some None
      | l # r \<Rightarrow>
          (case r of
             [n] \<Rightarrow> if l = ''LIMIT'' then map_option Some (parse_nat n) else None
           | _ \<Rightarrow> None))"

definition parse_select :: "string \<Rightarrow> (string \<times> sql_cond list \<times> nat option) option" where
  "parse_select sql =
     (case split_ws sql of
        [] \<Rightarrow> None
      | t # ts \<Rightarrow>
          if t \<noteq> ''SELECT'' \<or> takeWhile (\<lambda>x. x \<noteq> ''FROM'') ts = [] then None
          else
            (case dropWhile (\<lambda>x. x \<noteq> ''FROM'') ts of
               [] \<Rightarrow> None
             | f # rest1 \<Rightarrow>
                 (case rest1 of
                    [] \<Rightarrow> None
                  | table # rest2 \<Rightarrow>
                      (case rest2 of
                         [] \<Rightarrow> Some (table, [], None)
                       | w # rest3 \<Rightarrow>
                           if w = ''WHERE''
                           then (case parse_conds rest3 of
                                   None \<Rightarrow> None
                                 | Some (cs, r) \<Rightarrow>
                                     map_option (\<lambda>l. (table, cs, l)) (parse_limit r))
                           else map_option (\<lambda>l. (table, [], l)) (parse_limit rest2)))))"

subsection \<open>Running a \<open>SELECT\<close> statement\<close>

text \<open>
  Modelled from the spec: the model class \<open>UserRelationship\<close> is not in the sources; its
  columns are the fields that \<open>user_relationship.create\<close> sets and the soft-delete flag
  that the queries of the repository test.
\<close>

definition UserRelationship_ALL_FIELDS :: "string list" where
  "UserRelationship_ALL_FIELDS =
     [''id'', ''relationship_type'', ''user_id'', ''target_user_id'', ''post_ts'', ''seen_ts'',
      ''deleted'']"

definition table_of :: "state \<Rightarrow> string \<Rightarrow> (string list \<times> pyobj list) option" where
  "table_of s t =
     (if t = ''levels'' then Some (ALL_FIELDS, levels_rows s)
      else if t = ''user_relationships''
      then Some (UserRelationship_ALL_FIELDS, user_relationships_rows s)
      else None)"

fun resolve :: "string list \<Rightarrow> pyobj \<Rightarrow> sql_cond list \<Rightarrow> (string \<times> pyval) list option" where
  "resolve cols params [] = Some []"
| "resolve cols params ((col, x) # cs) =
     (if col \<notin> set cols then None
      else
        (case (case x of Const n \<Rightarrow> Some (PInt n) | Param p \<Rightarrow> dict_get params p) of
           None \<Rightarrow> None
         | Some v \<Rightarrow>
             (case resolve cols params cs of
                None \<Rightarrow> None
              | Some eqs \<Rightarrow> Some ((col, v) # eqs))))"

definition row_matches :: "(string \<times> pyval) list \<Rightarrow> pyobj \<Rightarrow> bool" where
  "row_matches eqs row = list_all (\<lambda>(col, v). column_eq row col v) eqs"

definition mysql_fetch_all :: "state \<Rightarrow> string \<Rightarrow> pyobj \<Rightarrow> error + pyobj list" where
  "mysql_fetch_all s sql params =
     (case parse_select sql of
        None \<Rightarrow> Inl ProgrammingError
      | Some (table, conds, limit) \<Rightarrow>
          (case table_of s table of
             None \<Rightarrow> Inl ProgrammingError
           | Some (cols, rows) \<Rightarrow>
               (case resolve cols params conds of
                  None \<Rightarrow> Inl ProgrammingError
                | Some eqs \<Rightarrow>
                    (let found = filter (row_matches eqs) rows
                     in Inr (case limit of None \<Rightarrow> found | Some n \<Rightarrow> take n found)))))"

definition mysql_fetch_one :: "state \<Rightarrow> string \<Rightarrow> pyobj \<Rightarrow> error + pyobj option" where
  "mysql_fetch_one s sql params =
     (case mysql_fetch_all s sql params of
        Inl e \<Rightarrow> Inl e
      | Inr rows \<Rightarrow> Inr (case rows of [] \<Rightarrow> None | r # _ \<Rightarrow> Some r))"

subsection \<open>\<open>INSERT\<close> and \<open>UPDATE\<close>\<close>

text \<open>
  Modelled from the spec: the texts of the \<open>INSERT\<close> and of the \<open>UPDATE\<close> are built by
  \<open>modelling.colon_prefixed_comma_separated\<close> and \<open>modelling.update_from_partial_dict\<close>,
  which are not in the sources; the statements are modelled by what they do.  The
  \<open>INSERT\<close> binds every column; a \<open>NULL\<close> id takes the next value of the counter, an
  explicit id is kept and must not exist yet.  The \<open>UPDATE\<close> of a row id sets the given
  columns in the rows with that id; the given columns must exist and be at least one.
\<close>

definition mysql_insert_level :: "state \<Rightarrow> pyobj \<Rightarrow> (error + int) \<times> state" where
  "mysql_insert_level s params =
     (if \<not> list_all (\<lambda>f. dict_contains f params) ALL_FIELDS then (Inl ProgrammingError, s)
      else
        (case dict_get params ''id'' of
           Some PNone \<Rightarrow>
             (let new_id = levels_auto_increment s
              in (Inr new_id,
                  s\<lparr>levels_rows := levels_rows s @ [dict_setitem ''id'' (PInt new_id) params],
                    levels_auto_increment := new_id + 1\<rparr>))
         | Some (PInt i) \<Rightarrow>
             if list_ex (\<lambda>r. column_eq r ''id'' (PInt i)) (levels_rows s)
             then (Inl IntegrityError, s)
             else (Inr i,
                   s\<lparr>levels_rows := levels_rows s @ [params],
                     levels_auto_increment := max (levels_auto_increment s) (i + 1)\<rparr>)
         | _ \<Rightarrow> (Inl ProgrammingError, s)))"

definition apply_changes :: "pyobj \<Rightarrow> pyobj \<Rightarrow> pyobj" where
  "apply_changes changed row = fold (\<lambda>(k, v) r. dict_setitem k v r) changed row"

definition row_changes :: "pyobj \<Rightarrow> pyobj \<Rightarrow> bool" where
  "row_changes changed row =
     list_ex (\<lambda>(k, v). case dict_get row k of
                          None \<Rightarrow> True
                        | Some w \<Rightarrow> sql_value w \<noteq> sql_value v) changed"

definition update_rows ::
  "bool \<Rightarrow> string list \<Rightarrow> int \<Rightarrow> pyobj \<Rightarrow> pyobj list \<Rightarrow> error + int \<times> pyobj list" where
  "update_rows found_rows cols row_id changed rows =
     (if changed = [] \<or> \<not> list_all (\<lambda>k. k \<in> set cols) (map fst changed)
      then Inl ProgrammingError
      else
        (let hit = (\<lambda>r. column_eq r ''id'' (PInt row_id));
             affected = filter (\<lambda>r. hit r \<and> (found_rows \<or> row_changes changed r)) rows
         in Inr (int (length affected),
                 map (\<lambda>r. if hit r then apply_changes changed r else r) rows)))"

definition mysql_update_level :: "state \<Rightarrow> int \<Rightarrow> pyobj \<Rightarrow> (error + int) \<times> state" where
  "mysql_update_level s level_id changed =
     (case update_rows (client_found_rows s) ALL_FIELDS level_id changed (levels_rows s) of
        Inl e \<Rightarrow> (Inl e, s)
      | Inr (n, rows) \<Rightarrow> (Inr n, s\<lparr>levels_rows := rows\<rparr>))"

definition mysql_update_user_relationship ::
  "state \<Rightarrow> int \<Rightarrow> pyobj \<Rightarrow> (error + int) \<times> state" where
  "mysql_update_user_relationship s relationship_id changed =
     (case update_rows (client_found_rows s) UserRelationship_ALL_FIELDS relationship_id changed
             (user_relationships_rows s) of
        Inl e \<Rightarrow> (Inl e, s)
      | Inr (n, rows) \<Rightarrow> (Inr n, s\<lparr>user_relationships_rows := rows\<rparr>))"

subsection \<open>The search index \<open>levels\<close>\<close>

text \<open>
  \<open>add_documents\<close> replaces the document with the same \<open>id\<close> or adds the document;
  \<open>update_documents\<close> sets the given fields in the document with the same \<open>id\<close> or adds
  the document.
\<close>

fun upsert_doc :: "(pyobj \<Rightarrow> pyobj \<Rightarrow> pyobj) \<Rightarrow> pyobj \<Rightarrow> pyobj list \<Rightarrow> pyobj list" where
  "upsert_doc merge doc [] = [doc]"
| "upsert_doc merge doc (x # xs) =
     (if dict_get x ''id'' = dict_get doc ''id'' then merge x doc # xs
      else x # upsert_doc merge doc xs)"

definition meili_add_documents :: "state \<Rightarrow> pyobj list \<Rightarrow> state" where
  "meili_add_documents s docs =
     s\<lparr>meili_levels := fold (upsert_doc (\<lambda>old new. new)) docs (meili_levels s)\<rparr>"

definition meili_update_documents :: "state \<Rightarrow> pyobj list \<Rightarrow> state" where
  "meili_update_documents s docs =
     s\<lparr>meili_levels := fold (upsert_doc (\<lambda>old new. apply_changes new old)) docs (meili_levels s)\<rparr>"





section \<open>\<open>LevelRepository\<close> (\<open>ognisko/resources/level.py\<close>)\<close>

subsection \<open>Keyword arguments\<close>

text \<open>
  A call with keyword arguments binds every parameter: the keyword's value, or else the
  default of the parameter; a missing required argument and an unexpected keyword raise
  \<open>TypeError\<close>.
\<close>

definition bind_arguments :: "string list \<Rightarrow> pyobj \<Rightarrow> pyobj \<Rightarrow> error + pyobj" where
  "bind_arguments required defaults kwargs =
     (if list_all (\<lambda>k. dict_contains k kwargs) required \<and>
         list_all (\<lambda>k. k \<in> set required \<or> dict_contains k defaults) (map fst kwargs)
      then Inr (map (\<lambda>k. (k, case dict_get kwargs k of None \<Rightarrow> PNone | Some v \<Rightarrow> v)) required
                @ map (\<lambda>(k, dflt). (k, case dict_get kwargs k of None \<Rightarrow> dflt | Some v \<Rightarrow> v))
                    defaults)
      else Inl TypeError)"

definition arg :: "pyobj \<Rightarrow> string \<Rightarrow> pyval" where
  "arg a k = (case dict_get a k of None \<Rightarrow> PNone | Some v \<Rightarrow> v)"

definition create_required :: "string list" where
  "create_required = [''name'', ''user_id'']"

definition create_defaults :: pyobj where
  "create_defaults =
    [(''description'', PStr ''''),
     (''custom_song_id'', PNone),
     (''official_song_id'', PInt 1),
     (''version'', PInt 1),
     (''length'', PInt 0),
     (''two_player'', PBool False),
     (''publicity'', PInt LevelPublicity_PUBLIC),
     (''render_str'', PStr ''''),
     (''game_version'', PInt 22),
     (''binary_version'', PInt 34),
     (''upload_ts'', PNone),
     (''update_ts'', PNone),
     (''original_id'', PNone),
     (''downloads'', PInt 0),
     (''likes'', PInt 0),
     (''stars'', PInt 0),
     (''difficulty'', PInt 0),
     (''demon_difficulty'', PNone),
     (''coins'', PInt 0),
     (''coins_verified'', PBool False),
     (''requested_stars'', PInt 0),
     (''feature_order'', PInt 0),
     (''search_flags'', PInt LevelSearchFlag_NONE),
     (''low_detail_mode'', PBool False),
     (''object_count'', PInt 0),
     (''building_time'', PInt 0),
     (''update_locked'', PBool False),
     (''song_ids'', PNone),
     (''sfx_ids'', PNone),
     (''deleted'', PBool False),
     (''level_id'', PNone)]"

subsection \<open>\<open>create\<close> and \<open>from_id\<close>\<close>

text \<open>
  \<open>now_upload\<close> and \<open>now_update\<close> are what the two calls of \<open>datetime.now()\<close> return.  An
  operation that writes returns its result together with the state it leaves, also when
  it raises.
\<close>

definition create ::
  "state \<Rightarrow> datetime \<Rightarrow> datetime \<Rightarrow> pyobj \<Rightarrow> (error + level) \<times> state" where
  "create s now_upload now_update kwargs =
     (case bind_arguments create_required create_defaults kwargs of
        Inl e \<Rightarrow> (Inl e, s)
      | Inr a \<Rightarrow>
          (let upload_ts = (if arg a ''upload_ts'' = PNone then PDatetime now_upload
                            else arg a ''upload_ts'');
               update_ts = (if arg a ''update_ts'' = PNone then PDatetime now_update
                            else arg a ''update_ts'');
               sfx_ids = (if arg a ''sfx_ids'' = PNone then PList [] else arg a ''sfx_ids'');
               song_ids = (if arg a ''song_ids'' = PNone then PList [] else arg a ''song_ids'')
           in
           case Level_init
                  [(''id'', PInt 0),
                   (''name'', arg a ''name''),
                   (''user_id'', arg a ''user_id''),
                   (''description'', arg a ''description''),
                   (''custom_song_id'', arg a ''custom_song_id''),
                   (''official_song_id'', arg a ''official_song_id''),
                   (''version'', arg a ''version''),
                   (''length'', arg a ''length''),
                   (''two_player'', arg a ''two_player''),
                   (''publicity'', arg a ''publicity''),
                   (''render_str'', arg a ''render_str''),
                   (''game_version'', arg a ''game_version''),
                   (''binary_version'', arg a ''binary_version''),
                   (''upload_ts'', upload_ts),
                   (''update_ts'', update_ts),
                   (''original_id'', arg a ''original_id''),
                   (''downloads'', arg a ''downloads''),
                   (''likes'', arg a ''likes''),
                   (''stars'', arg a ''stars''),
                   (''difficulty'', arg a ''difficulty''),
                   (''demon_difficulty'', arg a ''demon_difficulty''),
                   (''coins'', arg a ''coins''),
                   (''coins_verified'', arg a ''coins_verified''),
                   (''requested_stars'', arg a ''requested_stars''),
                   (''feature_order'', arg a ''feature_order''),
                   (''search_flags'', arg a ''search_flags''),
                   (''low_detail_mode'', arg a ''low_detail_mode''),
                   (''object_count'', arg a ''object_count''),
                   (''building_time'', arg a ''building_time''),
                   (''update_locked'', arg a ''update_locked''),
                   (''deleted'', arg a ''deleted''),
                   (''song_ids'', song_ids),
                   (''sfx_ids'', sfx_ids)] of
             Inl e \<Rightarrow> (Inl e, s)
           | Inr level \<Rightarrow>
               (let level_dump = dict_setitem ''id'' (arg a ''level_id'') (model_dump level)
                in case mysql_insert_level s level_dump of
                     (Inl e, s1) \<Rightarrow> (Inl e, s1)
                   | (Inr new_id, s1) \<Rightarrow>
                       (let level1 = dict_setitem ''id'' (PInt new_id) level
                        in case make_meili_dict (model_dump level1) of
                             Inl e \<Rightarrow> (Inl e, s1)
                           | Inr meili_dict \<Rightarrow>
                               (Inr level1, meili_add_documents s1 [meili_dict])))))"

definition from_id :: "state \<Rightarrow> int \<Rightarrow> error + level option" where
  "from_id s level_id =
     (case mysql_fetch_one s
             (''SELECT '' @ ALL_FIELDS_COMMA @ '' FROM levels WHERE id = :level_id'')
             [(''level_id'', PInt level_id)] of
        Inl e \<Rightarrow> Inl e
      | Inr level_dict \<Rightarrow>
          (case level_dict of
             None \<Rightarrow> Inr None
           | Some row \<Rightarrow>
               if row = [] then Inr None
               else (case Level_init row of Inl e \<Rightarrow> Inl e | Inr l \<Rightarrow> Inr (Some l))))"

subsection \<open>\<open>update_partial\<close>\<close>

definition update_partial :: "state \<Rightarrow> int \<Rightarrow> pyobj \<Rightarrow> (error + level option) \<times> state" where
  "update_partial s level_id kwargs =
     (let changed_fields = unpack_enum_types kwargs
      in case mysql_update_level s level_id changed_fields of
           (Inl e, s1) \<Rightarrow> (Inl e, s1)
         | (Inr changed_rows, s1) \<Rightarrow>
             if changed_rows = 0 then (Inr None, s1)
             else
               (let changed_fields1 = dict_setitem ''id'' (PInt level_id) changed_fields
                in case make_meili_dict changed_fields1 of
                     Inl e \<Rightarrow> (Inl e, s1)
                   | Inr changed_fields2 \<Rightarrow>
                       (let s2 = meili_update_documents s1 [changed_fields2]
                        in (from_id s2 level_id, s2))))"

subsection \<open>\<open>search\<close> and \<open>iterate_all\<close>\<close>

record search_args =
  query :: "string option"
  page :: int
  page_size :: int
  required_lengths :: "int list option"
  required_difficulties :: "int list option"
  required_demon_difficulties :: "int list option"
  song_id :: "int option"
  custom_song_id :: "int option"
  rated_only :: "bool option"
  two_player_only :: "bool option"
  excluded_user_ids :: "int list option"
  required_user_ids :: "int list option"
  required_level_ids :: "int list option"
  excluded_level_ids :: "int list option"
  order_by :: string







subsection \<open>\<open>from_name_and_user_id\<close> and \<open>from_name\<close>\<close>

text \<open>
  In both functions adjacent string literals are joined before the conditional expression
  is read, and the conditional expression binds weaker than the joining: the statement of
  \<open>from_name_and_user_id\<close> is
  \<open>("SELECT ... AND user_id = :user_id" " AND deleted = 0") if not include_deleted else ""\<close>,
  and that of \<open>from_name\<close> is
  \<open>("SELECT ... WHERE name = :name" " AND deleted = 0") if not include_deleted else ("" " LIMIT 1")\<close>.
\<close>

definition from_name_and_user_id_sql :: "bool \<Rightarrow> string" where
  "from_name_and_user_id_sql include_deleted =
     (if \<not> include_deleted
      then ''SELECT * FROM levels WHERE name = :name AND user_id = :user_id'' @ '' AND deleted = 0''
      else '''')"

definition from_name_and_user_id ::
  "state \<Rightarrow> string \<Rightarrow> int \<Rightarrow> bool \<Rightarrow> error + level option" where
  "from_name_and_user_id s nm uid include_deleted =
     (case mysql_fetch_one s (from_name_and_user_id_sql include_deleted)
             [(''name'', PStr nm), (''user_id'', PInt uid)] of
        Inl e \<Rightarrow> Inl e
      | Inr level_dict \<Rightarrow>
          (case level_dict of
             None \<Rightarrow> Inr None
           | Some row \<Rightarrow>
               if row = [] then Inr None
               else (case Level_init row of Inl e \<Rightarrow> Inl e | Inr l \<Rightarrow> Inr (Some l))))"

definition from_name_sql :: "bool \<Rightarrow> string" where
  "from_name_sql include_deleted =
     (if \<not> include_deleted
      then ''SELECT * FROM levels WHERE name = :name'' @ '' AND deleted = 0''
      else '''' @ '' LIMIT 1'')"

definition from_name :: "state \<Rightarrow> string \<Rightarrow> bool \<Rightarrow> error + level option" where
  "from_name s nm include_deleted =
     (case mysql_fetch_one s (from_name_sql include_deleted) [(''name'', PStr nm)] of
        Inl e \<Rightarrow> Inl e
      | Inr levels \<Rightarrow>
          (case levels of
             None \<Rightarrow> Inr None
           | Some row \<Rightarrow>
               if row = [] then Inr None
               else (case Level_init row of Inl e \<Rightarrow> Inl e | Inr l \<Rightarrow> Inr (Some l))))"

section \<open>The user relationship repository (\<open>rgdps/repositories/user_relationship.py\<close>)\<close>

text \<open>
  \<open>UserRelationship.from_mapping\<close> is not in the sources; it is the parameter
  \<open>from_mapping\<close>.
\<close>

definition user_relationship_from_id ::
  "(pyobj \<Rightarrow> 'r) \<Rightarrow> state \<Rightarrow> int \<Rightarrow> bool \<Rightarrow> error + 'r option" where
  "user_relationship_from_id from_mapping s relationship_id include_deleted =
     (let condition = (if \<not> include_deleted then ''AND deleted = 0'' else '''')
      in case mysql_fetch_one s
                (''SELECT '' @ comma_separated UserRelationship_ALL_FIELDS
                   @ '' FROM user_relationships WHERE id = :relationship_id '' @ condition)
                [(''relationship_id'', PInt relationship_id)] of
           Inl e \<Rightarrow> Inl e
         | Inr relationship_db \<Rightarrow>
             (case relationship_db of
                None \<Rightarrow> Inr None
              | Some row \<Rightarrow> if row = [] then Inr None else Inr (Some (from_mapping row))))"

definition user_relationship_update_partial ::
  "(pyobj \<Rightarrow> 'r) \<Rightarrow> state \<Rightarrow> int \<Rightarrow> pyobj \<Rightarrow> (error + 'r option) \<times> state" where
  "user_relationship_update_partial from_mapping s relationship_id kwargs =
     (let changed_fields = unpack_enum_types kwargs
      in case mysql_update_user_relationship s relationship_id changed_fields of
           (Inl e, s1) \<Rightarrow> (Inl e, s1)
         | (Inr n, s1) \<Rightarrow> (user_relationship_from_id from_mapping s1 relationship_id True, s1))"

text \<open>
  Two auxiliary notions for the statements about the translation: the five booleans that
  \<open>_make_meili_dict\<close> derives from a bitmask, and the bitmask that \<open>_from_meili_dict\<close>
  builds from them again.
\<close>

definition meili_flags :: "int \<Rightarrow> pyobj" where
  "meili_flags sf =
     [(''epic'', PBool (sf AND 1 \<noteq> 0)), (''magic'', PBool (sf AND 4 \<noteq> 0)),
      (''awarded'', PBool (sf AND 2 \<noteq> 0)), (''legendary'', PBool (sf AND 8 \<noteq> 0)),
      (''mythical'', PBool (sf AND 16 \<noteq> 0))]"

definition recombine :: "int \<Rightarrow> int" where
  "recombine sf =
    (let f1 = (if sf AND 1 \<noteq> 0 then 0 OR 1 else 0);
         f2 = (if sf AND 4 \<noteq> 0 then f1 OR 4 else f1);
         f3 = (if sf AND 2 \<noteq> 0 then f2 OR 2 else f2);
         f4 = (if sf AND 8 \<noteq> 0 then f3 OR 8 else f3)
     in (if sf AND 16 \<noteq> 0 then f4 OR 16 else f4))"






text \<open>
  The keyword arguments of the call \<open>Level(id=0, name=name, ...)\<close> in \<open>create\<close>, for the
  bound arguments \<open>a\<close>: a name for the dict that \<open>create\<close> passes to \<open>Level_init\<close>.
\<close>

definition level_kwargs :: "pyobj \<Rightarrow> datetime \<Rightarrow> datetime \<Rightarrow> pyobj" where
  "level_kwargs a now_upload now_update =
     [(''id'', PInt 0),
      (''name'', arg a ''name''),
      (''user_id'', arg a ''user_id''),
      (''description'', arg a ''description''),
      (''custom_song_id'', arg a ''custom_song_id''),
      (''official_song_id'', arg a ''official_song_id''),
      (''version'', arg a ''version''),
      (''length'', arg a ''length''),
      (''two_player'', arg a ''two_player''),
      (''publicity'', arg a ''publicity''),
      (''render_str'', arg a ''render_str''),
      (''game_version'', arg a ''game_version''),
      (''binary_version'', arg a ''binary_version''),
      (''upload_ts'', if arg a ''upload_ts'' = PNone then PDatetime now_upload
                      else arg a ''upload_ts''),
      (''update_ts'', if arg a ''update_ts'' = PNone then PDatetime now_update
                      else arg a ''update_ts''),
      (''original_id'', arg a ''original_id''),
      (''downloads'', arg a ''downloads''),
      (''likes'', arg a ''likes''),
      (''stars'', arg a ''stars''),
      (''difficulty'', arg a ''difficulty''),
      (''demon_difficulty'', arg a ''demon_difficulty''),
      (''coins'', arg a ''coins''),
      (''coins_verified'', arg a ''coins_verified''),
      (''requested_stars'', arg a ''requested_stars''),
      (''feature_order'', arg a ''feature_order''),
      (''search_flags'', arg a ''search_flags''),
      (''low_detail_mode'', arg a ''low_detail_mode''),
      (''object_count'', arg a ''object_count''),
      (''building_time'', arg a ''building_time''),
      (''update_locked'', arg a ''update_locked''),
      (''deleted'', arg a ''deleted''),
      (''song_ids'', if arg a ''song_ids'' = PNone then PList [] else arg a ''song_ids''),
      (''sfx_ids'', if arg a ''sfx_ids'' = PNone then PList [] else arg a ''sfx_ids'')]"

text \<open>The counter of the table \<open>levels\<close> is above every id in the table.\<close>

definition counter_fresh :: "state \<Rightarrow> bool" where
  "counter_fresh s =
     list_all (\<lambda>r. case dict_get r ''id'' of
                      Some (PInt i) \<Rightarrow> i < levels_auto_increment s
                    | Some (PBool b) \<Rightarrow> 1 < levels_auto_increment s
                    | _ \<Rightarrow> True) (levels_rows s)"

section \<open>The account repository (\<open>realistikgdps/repositories/account.py\<close>)\<close>

text \<open>
  The model class \<open>Account\<close> is not in the sources; it has the fields that \<open>from_db\<close>
  sets, and an object of it is true in an \<open>if\<close>.  A row of the table \<open>accounts\<close> has the
  columns that \<open>from_db\<close> selects.  The dict \<open>realistikgdps.state.repositories.account_repo\<close>
  and the table are the state; \<open>db_queries\<close> records the account ids that the relational
  store was asked for.
\<close>

record account =
  acc_id :: int
  acc_name :: string
  password :: string
  email :: string
  messages_blocked :: bool
  friend_req_blocked :: bool
  comment_history_hidden :: bool
  youtube_name :: "string option"
  twitter_name :: "string option"
  twitch_name :: "string option"

record account_row =
  col_accountID :: int
  col_userName :: string
  col_password :: string
  col_email :: string
  col_mS :: int
  col_frS :: int
  col_cS :: int
  col_youtubeurl :: "string option"
  col_twitter :: "string option"
  col_twitch :: "string option"

record account_state =
  account_repo :: "(int, account) pydict"
  accounts_rows :: "account_row list"
  db_queries :: "int list"

text \<open>\<open>fetch_one\<close> of \<open>SELECT ... FROM accounts WHERE accountID = :account_id\<close>.\<close>

definition accounts_fetch_one :: "account_state \<Rightarrow> int \<Rightarrow> account_row option \<times> account_state" where
  "accounts_fetch_one s account_id =
     (find (\<lambda>r. col_accountID r = account_id) (accounts_rows s),
      s\<lparr>db_queries := db_queries s @ [account_id]\<rparr>)"

definition from_db :: "account_state \<Rightarrow> int \<Rightarrow> account option \<times> account_state" where
  "from_db s account_id =
     (case accounts_fetch_one s account_id of
        (None, s1) \<Rightarrow> (None, s1)
      | (Some acc_db, s1) \<Rightarrow>
          (Some \<lparr>acc_id = col_accountID acc_db,
                 acc_name = col_userName acc_db,
                 password = col_password acc_db,
                 email = col_email acc_db,
                 messages_blocked = (col_mS acc_db = 1),
                 friend_req_blocked = (col_frS acc_db = 1),
                 comment_history_hidden = (col_cS acc_db = 1),
                 youtube_name = col_youtubeurl acc_db,
                 twitter_name = col_twitter acc_db,
                 twitch_name = col_twitch acc_db\<rparr>,
           s1))"

definition into_cache :: "account_state \<Rightarrow> account \<Rightarrow> account_state" where
  "into_cache s acc = s\<lparr>account_repo := dict_setitem (acc_id acc) acc (account_repo s)\<rparr>"

definition from_cache :: "account_state \<Rightarrow> int \<Rightarrow> account option" where
  "from_cache s account_id = dict_get (account_repo s) account_id"

definition account_from_id :: "account_state \<Rightarrow> int \<Rightarrow> account option \<times> account_state" where
  "account_from_id s account_id =
     (case from_cache s account_id of
        Some acc \<Rightarrow> (Some acc, s)
      | None \<Rightarrow>
          (case from_db s account_id of
             (Some acc, s1) \<Rightarrow> (Some acc, into_cache s1 acc)
           | (None, s1) \<Rightarrow> (None, s1)))"

text \<open>An account and a row, for the examples.\<close>

definition example_account :: account where
  "example_account =
     \<lparr>acc_id = 5, acc_name = ''alice'', password = ''hash'', email = ''a@example.org'',
      messages_blocked = True, friend_req_blocked = False, comment_history_hidden = False,
      youtube_name = None, twitter_name = None, twitch_name = None\<rparr>"

definition example_account_row :: account_row where
  "example_account_row =
     \<lparr>col_accountID = 6, col_userName = ''bob'', col_password = ''hash'',
      col_email = ''b@example.org'', col_mS = 0, col_frS = 1, col_cS = 0,
      col_youtubeurl = None, col_twitter = Some ''bob'', col_twitch = None\<rparr>"

definition example_account_state :: account_state where
  "example_account_state =
     \<lparr>account_repo = [(5, example_account)], accounts_rows = [example_account_row],
      db_queries = []\<rparr>"

section \<open>Properties of the memory caches\<close>

lemma evict_total: "1 \<le> cap \<Longrightarrow> \<exists>d'. evict cap d = Inr d' \<and> int (length d') < cap"
proof (induction cap d rule: evict.induct)
  case (1 cap d)
  show ?case
  proof (cases "int (length d) \<ge> cap")
    case False
    then show ?thesis by (subst evict.simps) simp
  next
    case True
    with 1(2) obtain p ps where d: "d = p # ps" by (cases d) auto
    have fk: "dict_first_key d = Inr (fst p)" by (simp add: d dict_first_key_def)
    from 1(1)[OF True fk 1(2)] show ?thesis
      by (subst evict.simps) (simp add: True fk)
  qed
qed

lemma evict_distinct:
  "distinct (map fst d) \<Longrightarrow> 1 \<le> cap \<Longrightarrow> evict cap d = Inr (drop (length d + 1 - nat cap) d)"
proof (induction cap d rule: evict.induct)
  case (1 cap d)
  show ?case
  proof (cases "int (length d) \<ge> cap")
    case False
    then show ?thesis by (subst evict.simps) simp
  next
    case True
    with 1(3) obtain p ps where d: "d = p # ps" by (cases d) auto
    have fk: "dict_first_key d = Inr (fst p)" by (simp add: d dict_first_key_def)
    have del: "AList.delete (fst p) d = ps" using 1(2) by (simp add: d)
    have dps: "distinct (map fst ps)" using 1(2) by (simp add: d)
    have "evict cap d = evict cap ps"
      by (subst evict.simps) (simp add: True fk del)
    also have "\<dots> = Inr (drop (length ps + 1 - nat cap) ps)"
      using 1(1)[OF True fk] dps 1(3) by (simp add: del)
    also have "drop (length ps + 1 - nat cap) ps = drop (length d + 1 - nat cap) d"
      using True 1(3) by (simp add: d Suc_diff_le)
    finally show ?thesis .
  qed
qed

lemma evict_low: "cap \<le> 0 \<Longrightarrow> evict cap d = Inl StopIteration"
proof (induction cap d rule: evict.induct)
  case (1 cap d)
  show ?case
  proof (cases d)
    case Nil
    then show ?thesis using 1(2) by (subst evict.simps) (simp add: dict_first_key_def)
  next
    case (Cons p ps)
    have fk: "dict_first_key d = Inr (fst p)" by (simp add: Cons dict_first_key_def)
    have ge: "cap \<le> int (length d)" using 1(2) by simp
    from 1(1)[OF ge fk 1(2)] show ?thesis
      by (subst evict.simps) (simp add: ge fk)
  qed
qed

lemma keys_touch:
  "map fst (dict_setitem k v (AList.delete k d)) = removeAll k (map fst d) @ [k]"
  by (simp add: dict_setitem_def update_keys delete_keys)

lemma distinct_touch:
  "distinct (map fst d) \<Longrightarrow> distinct (map fst (dict_setitem k v (AList.delete k d)))"
  by (simp add: dict_setitem_def distinct_update distinct_delete)

lemma drop_shift:
  fixes A :: "'a list"
  assumes "length A \<le> n" "1 \<le> n"
  shows "drop (min (length A) (n - 1) + 1 + m - n) ((drop (length A + 1 - n) A @ [k]) @ B)
       = drop (length A + Suc m - n) (A @ k # B)"
proof (cases "length A < n")
  case True
  then show ?thesis by (simp add: min_def)
next
  case False
  with assms have eq: "length A = n" by simp
  with assms(2) obtain x xs where A: "A = x # xs" by (cases A) auto
  with eq have "length xs = n - 1" by simp
  then show ?thesis using assms(2) by (auto simp add: A min_def)
qed

lemma set_all_keys:
  assumes "1 \<le> n" "capacity c = int n" "length (cache c) \<le> n"
    "distinct (map fst (cache c) @ map ensure_key_type (map fst kvs))"
  shows "\<exists>c'. LRUMemoryCache_set_all c kvs = Inr c' \<and> capacity c' = capacity c \<and>
     map fst (cache c') =
       drop (length (cache c) + length kvs - n) (map fst (cache c) @ map ensure_key_type (map fst kvs))"
  using assms
proof (induction kvs arbitrary: c)
  case Nil
  then show ?case by simp
next
  case (Cons kv kvs)
  obtain k v where kv: "kv = (k, v)" by (cases kv)
  let ?ks = "ensure_key_type k"
  let ?d = "drop (length (cache c) + 1 - n) (cache c)"
  let ?c1 = "c\<lparr>cache := dict_setitem ?ks v ?d\<rparr>"
  have dist: "distinct (map fst (cache c))" using Cons.prems(4) by simp
  have ev: "evict (capacity c) (cache c) = Inr ?d"
    using evict_distinct[OF dist, of "capacity c"] Cons.prems(1,2) by simp
  have set1: "LRUMemoryCache_set c k v = Inr ?c1"
    by (simp add: LRUMemoryCache_set_def ev)
  have notin: "?ks \<notin> set (map fst (cache c))" using Cons.prems(4) by (auto simp: kv)
  have notin': "?ks \<notin> set (map fst ?d)"
    using notin by (metis in_set_dropD drop_map)
  have keys1: "map fst (cache ?c1) = drop (length (cache c) + 1 - n) (map fst (cache c)) @ [?ks]"
    using notin' by (simp add: dict_setitem_def update_keys drop_map)
  have len1: "length (cache ?c1) = min (length (cache c)) (n - 1) + 1"
    using arg_cong[OF keys1, of length] Cons.prems(1,3) by (simp add: min_def) 
  have len1': "length (cache ?c1) \<le> n" using len1 Cons.prems(1) by simp
  have sub: "set (drop (length (cache c) + 1 - n) (map fst (cache c))) \<subseteq> set (map fst (cache c))"
    by (rule set_drop_subset)
  have dd: "distinct (drop (length (cache c) + 1 - n) (map fst (cache c)))"
    using dist by (rule distinct_drop)
  have dist1: "distinct (map fst (cache ?c1) @ map ensure_key_type (map fst kvs))"
    unfolding keys1 using Cons.prems(4) sub dd
    by (auto simp: kv)
  have cap1: "capacity ?c1 = int n" using Cons.prems(2) by simp
  from Cons.IH[of ?c1, OF Cons.prems(1) cap1 len1' dist1]
  obtain c' where c': "LRUMemoryCache_set_all ?c1 kvs = Inr c'" "capacity c' = capacity ?c1"
    "map fst (cache c') = drop (length (cache ?c1) + length kvs - n)
        (map fst (cache ?c1) @ map ensure_key_type (map fst kvs))"
    by blast
  have cap': "capacity c' = capacity c" using c'(2) by simp
  have lenA: "length (map fst (cache c)) \<le> n" using Cons.prems(3) by simp
  have len1k: "length (cache ?c1) = min (length (map fst (cache c))) (n - 1) + 1"
    using len1 by simp
  have keys1k: "map fst (cache ?c1) =
      drop (length (map fst (cache c)) + 1 - n) (map fst (cache c)) @ [?ks]"
    using keys1 by simp
  have "drop (length (cache ?c1) + length kvs - n)
        (map fst (cache ?c1) @ map ensure_key_type (map fst kvs))
      = drop (length (map fst (cache c)) + Suc (length kvs) - n)
         (map fst (cache c) @ ?ks # map ensure_key_type (map fst kvs))"
    unfolding len1k keys1k using drop_shift[OF lenA Cons.prems(1)] .
  then have fin: "map fst (cache c') = drop (length (cache c) + length (kv # kvs) - n)
         (map fst (cache c) @ map ensure_key_type (map fst (kv # kvs)))"
    using c'(3) by (simp add: kv)
  from fin c'(1) cap' set1 show ?case by (simp add: kv)
qed

lemma length_update_le: "length (AList.update k v d) \<le> Suc (length d)"
  by (induction d) auto

lemma length_delete_less:
  "map_of d k = Some v \<Longrightarrow> length (AList.delete k d) < length d"
proof -
  assume "map_of d k = Some v"
  then have "k \<in> set (map fst d)" by (metis map_of_eq_None_iff option.distinct(1) set_map)
  then have "length (removeAll k (map fst d)) < length (map fst d)"
    by (rule length_removeAll_less)
  then show ?thesis by (metis delete_keys length_map)
qed

lemma length_touch_le:
  "map_of d k = Some v \<Longrightarrow> length (dict_setitem k v (AList.delete k d)) \<le> length d"
  using length_update_le[of k v "AList.delete k d"] length_delete_less[of d k v]
  by (simp add: dict_setitem_def)

lemma get_bound:
  "LRUMemoryCache_get c h k = (r, c', h') \<Longrightarrow>
     capacity c' = capacity c \<and> length (cache c') \<le> length (cache c)"
  by (auto simp: LRUMemoryCache_get_def Let_def dict_get_def copy_def
      split: option.splits dest: length_touch_le)

lemma async_get_bound:
  "capacity (snd (LRUAsyncMemoryCache_get c k)) = capacity c \<and>
   length (cache (snd (LRUAsyncMemoryCache_get c k))) \<le> length (cache c)"
  by (auto simp: LRUAsyncMemoryCache_get_def Let_def dict_get_def
      split: option.splits dest: length_touch_le)

lemma delete_bound:
  "capacity (LRUMemoryCache_delete c k) = capacity c \<and>
   length (cache (LRUMemoryCache_delete c k)) \<le> length (cache c)"
  by (auto simp: LRUMemoryCache_delete_def dict_delitem_def length_delete_le)

lemma async_delete_eq: "LRUAsyncMemoryCache_delete c k = LRUMemoryCache_delete c k"
  by (simp add: LRUAsyncMemoryCache_delete_def LRUMemoryCache_delete_def)

lemma set_bound:
  assumes "1 \<le> capacity c"
  shows "\<exists>d. evict (capacity c) (cache c) = Inr d \<and> int (length d) < capacity c \<and>
    LRUMemoryCache_set c k v = Inr (c\<lparr>cache := dict_setitem (ensure_key_type k) v d\<rparr>) \<and>
    LRUAsyncMemoryCache_set c k v = Inr (c\<lparr>cache := dict_setitem (ensure_key_type k) v d\<rparr>) \<and>
    int (length (dict_setitem (ensure_key_type k) v d)) \<le> capacity c"
proof -
  from evict_total[OF assms, of "cache c"] obtain d where
    d: "evict (capacity c) (cache c) = Inr d" "int (length d) < capacity c" by blast
  have "length (dict_setitem (ensure_key_type k) v d) \<le> Suc (length d)"
    by (simp add: dict_setitem_def length_update_le)
  with d show ?thesis
    by (auto simp: LRUMemoryCache_set_def LRUAsyncMemoryCache_set_def)
qed

lemma step_bound:
  assumes "1 \<le> capacity c" "int (length (cache c)) \<le> capacity c"
  shows "\<exists>c' h'. LRUMemoryCache_step (c, h) x = Inr (c', h') \<and> capacity c' = capacity c \<and>
     int (length (cache c')) \<le> capacity c'"
proof (cases x)
  case (Get k)
  obtain r c' h' where g: "LRUMemoryCache_get c h k = (r, c', h')"
    by (cases "LRUMemoryCache_get c h k") auto
  from get_bound[OF g] assms(2) show ?thesis by (simp add: Get g)
next
  case (Set k v)
  from set_bound[OF assms(1), of k v] show ?thesis by (auto simp: Set)
next
  case (Delete k)
  from delete_bound[of c k] assms(2) show ?thesis by (simp add: Delete)
qed

lemma async_step_bound:
  assumes "1 \<le> capacity c" "int (length (cache c)) \<le> capacity c"
  shows "\<exists>c'. LRUAsyncMemoryCache_step c x = Inr c' \<and> capacity c' = capacity c \<and>
     int (length (cache c')) \<le> capacity c'"
proof (cases x)
  case (Get k)
  from async_get_bound[of c k] assms(2) show ?thesis by (simp add: Get)
next
  case (Set k v)
  from set_bound[OF assms(1), of k v] show ?thesis by (auto simp: Set)
next
  case (Delete k)
  from delete_bound[of c k] assms(2) show ?thesis by (simp add: Delete async_delete_eq)
qed

lemma run_bound:
  "1 \<le> capacity c \<Longrightarrow> int (length (cache c)) \<le> capacity c \<Longrightarrow>
   \<exists>c' h'. LRUMemoryCache_run (c, h) ops = Inr (c', h') \<and> capacity c' = capacity c \<and>
     int (length (cache c')) \<le> capacity c'"
proof (induction ops arbitrary: c h)
  case Nil
  then show ?case by simp
next
  case (Cons x ops)
  from step_bound[OF Cons.prems, of h x] obtain c1 h1 where
    s: "LRUMemoryCache_step (c, h) x = Inr (c1, h1)" "capacity c1 = capacity c"
       "int (length (cache c1)) \<le> capacity c1" by blast
  from Cons.IH[of c1 h1] s Cons.prems(1) show ?case by simp
qed

lemma async_run_bound:
  "1 \<le> capacity c \<Longrightarrow> int (length (cache c)) \<le> capacity c \<Longrightarrow>
   \<exists>c'. LRUAsyncMemoryCache_run c ops = Inr c' \<and> capacity c' = capacity c \<and>
     int (length (cache c')) \<le> capacity c'"
proof (induction ops arbitrary: c)
  case Nil
  then show ?case by simp
next
  case (Cons x ops)
  from async_step_bound[OF Cons.prems, of x] obtain c1 where
    s: "LRUAsyncMemoryCache_step c x = Inr c1" "capacity c1 = capacity c"
       "int (length (cache c1)) \<le> capacity c1" by blast
  from Cons.IH[of c1] s Cons.prems(1) show ?case by simp
qed


lemma set_full_new:
  assumes "1 \<le> capacity c" "int (length (cache c)) = capacity c"
    "distinct (map fst (cache c))" "ensure_key_type k \<notin> set (map fst (cache c))"
  shows "\<exists>c'. LRUMemoryCache_set c k v = Inr c' \<and> capacity c' = capacity c \<and>
     map fst (cache c') = tl (map fst (cache c)) @ [ensure_key_type k]"
proof -
  have n: "length (cache c) + 1 - nat (capacity c) = 1" using assms(1,2) by simp
  have ev: "evict (capacity c) (cache c) = Inr (tl (cache c))"
    using evict_distinct[OF assms(3,1)] n by (simp add: drop_Suc)
  have "ensure_key_type k \<notin> set (map fst (tl (cache c)))"
    using assms(4) by (cases "cache c") auto
  then have "map fst (dict_setitem (ensure_key_type k) v (tl (cache c))) =
      tl (map fst (cache c)) @ [ensure_key_type k]"
    by (simp add: dict_setitem_def update_keys map_tl)
  then show ?thesis by (simp add: LRUMemoryCache_set_def ev)
qed

lemma dict_get_setitem:
  "dict_get (dict_setitem k v d) k' = (if k' = k then Some v else dict_get d k')"
  by (simp add: dict_get_def dict_setitem_def update_conv')

lemma get_present:
  assumes "dict_get (cache c) (ensure_key_type k) = Some a"
  shows "\<exists>c'. LRUMemoryCache_get c h k = (Some (next_addr h), c', fst (copy h a)) \<and>
     capacity c' = capacity c \<and>
     map fst (cache c') = removeAll (ensure_key_type k) (map fst (cache c)) @ [ensure_key_type k] \<and>
     dict_get (cache c') (ensure_key_type k) = Some a"
  using assms
  by (simp add: LRUMemoryCache_get_def Let_def copy_def keys_touch dict_get_setitem)

lemma length_removeAll_distinct:
  "distinct xs \<Longrightarrow> x \<in> set xs \<Longrightarrow> Suc (length (removeAll x xs)) = length xs"
  by (induction xs) auto


lemma dict_get_delitem:
  "dict_get (case dict_delitem k d of Inl e \<Rightarrow> d | Inr d' \<Rightarrow> d') k = None"
proof (cases "k \<in> fst ` set d")
  case True
  then show ?thesis by (simp add: dict_get_def dict_delitem_def delete_conv')
next
  case False
  then show ?thesis by (simp add: dict_get_def dict_delitem_def map_of_eq_None_iff)
qed

lemma copy_eq: "copy h v = (fst (copy h v), next_addr h)"
  by (simp add: copy_def)


lemma observed_simple_get:
  "observed (snd (SimpleMemoryCache_get c h k)) (fst (SimpleMemoryCache_get c h k)) =
     map_option (cells h) (dict_get c (ensure_key_type k))"
  by (simp add: SimpleMemoryCache_get_def observed_def copy_def split: option.splits)

lemma observed_lru_get:
  "observed (snd (snd (LRUMemoryCache_get c h k))) (fst (LRUMemoryCache_get c h k)) =
     map_option (cells h) (dict_get (cache c) (ensure_key_type k))"
  by (simp add: LRUMemoryCache_get_def Let_def observed_def copy_def split: option.splits)

lemma dict_get_in_ran: "dict_get d k = Some a \<Longrightarrow> a \<in> snd ` set d"
  by (metis dict_get_def image_eqI map_of_SomeD snd_conv)

lemma mutate_other:
  "b \<notin> snd ` set d \<Longrightarrow>
   map_option (cells (mutate h b x)) (dict_get d s) = map_option (cells h) (dict_get d s)"
  by (cases "dict_get d s") (auto simp: mutate_def dest!: dict_get_in_ran)

lemma set_update_subset: "set (AList.update k v d) \<subseteq> insert (k, v) (set d)"
  by (induction d) auto

lemma ran_touch_subset:
  assumes "dict_get d s = Some a"
  shows "snd ` set (dict_setitem s a (AList.delete s d)) \<subseteq> snd ` set d"
proof -
  have "set (AList.delete s d) \<subseteq> set d" by (auto simp: AList.delete_eq)
  with set_update_subset[of s a "AList.delete s d"]
  have "set (dict_setitem s a (AList.delete s d)) \<subseteq> insert (s, a) (set d)"
    by (auto simp: dict_setitem_def)
  moreover have "(s, a) \<in> set d" using assms by (simp add: dict_get_def map_of_SomeD)
  ultimately show ?thesis by auto
qed

lemma str_int_1: "str_int 1 = ''1''"
  by code_simp


section \<open>Properties of the level repository\<close>

lemma flag_values:
  "LevelSearchFlag_NONE = 0" "LevelSearchFlag_EPIC = 1" "LevelSearchFlag_AWARDED = 2"
  "LevelSearchFlag_MAGIC = 4" "LevelSearchFlag_LEGENDARY = 8" "LevelSearchFlag_MYTHICAL = 16"
  by (simp_all add: LevelSearchFlag_NONE_def LevelSearchFlag_EPIC_def LevelSearchFlag_AWARDED_def
      LevelSearchFlag_MAGIC_def LevelSearchFlag_LEGENDARY_def LevelSearchFlag_MYTHICAL_def)

lemma recombine_all: "\<forall>sf \<in> {0..31}. recombine sf = sf"
  by code_simp

lemma recombine_id: "0 \<le> sf \<Longrightarrow> sf < 32 \<Longrightarrow> recombine sf = sf"
  using recombine_all by simp

lemma update_absent: "k \<notin> fst ` set al \<Longrightarrow> AList.update k v al = al @ [(k, v)]"
  by (induction al) auto

lemma update_append_present:
  "k \<in> fst ` set al \<Longrightarrow> AList.update k v (al @ bl) = AList.update k v al @ bl"
  by (induction al) auto

lemma update_same_value:
  "distinct (map fst al) \<Longrightarrow> map_of al k = Some v \<Longrightarrow> AList.update k v al = al"
  by (rule update_triv)

lemma update_swap_present:
  "k \<noteq> k' \<Longrightarrow> k \<in> fst ` set al \<Longrightarrow>
   AList.update k v (AList.update k' v' al) = AList.update k' v' (AList.update k v al)"
  by (induction al) auto

lemma delete_append: "AList.delete k (al @ bl) = AList.delete k al @ AList.delete k bl"
  by (simp add: AList.delete_eq)


lemma setitem_absent: "k \<notin> fst ` set al \<Longrightarrow> dict_setitem k v al = al @ [(k, v)]"
  by (simp add: dict_setitem_def update_absent)

lemma meili_keys_not_fields:
  "''epic'' \<notin> set ALL_FIELDS" "''magic'' \<notin> set ALL_FIELDS" "''awarded'' \<notin> set ALL_FIELDS"
  "''legendary'' \<notin> set ALL_FIELDS" "''mythical'' \<notin> set ALL_FIELDS"
  by (simp_all add: ALL_FIELDS_def Level_fields_def)

lemma dict_get_present: "dict_get d k = Some v \<Longrightarrow> k \<in> fst ` set d"
  by (metis dict_get_def domI dom_map_of_conv_image_fst)

lemma err_bind_Inr: "err_bind (Inr x) f = f x"
  by (simp add: err_bind_def)

lemma stage_ts:
  "dict_get d k = Some (PDatetime (Datetime s m)) \<Longrightarrow>
   (if dict_contains k d
    then err_bind (err_bind (dict_getitem d k) into_unix_ts) (\<lambda>ts. Inr (dict_setitem k ts d))
    else Inr d) = Inr (dict_setitem k (PInt s) d)"
  by (simp add: dict_contains_def dict_getitem_def err_bind_def)

lemma stage_flag:
  "dict_get d ''search_flags'' = Some (PInt sf) \<Longrightarrow>
   err_bind (dict_getitem d ''search_flags'') (\<lambda>x. flag_set x f) = Inr (PBool (sf AND f \<noteq> 0))"
  by (simp add: dict_getitem_def err_bind_def flag_set_def)

lemma dict_get_append_left:
  "dict_get al k = Some v \<Longrightarrow> dict_get (al @ bl) k = Some v"
  by (simp add: dict_get_def map_add_Some_iff)

lemma dict_get_append_right:
  "k \<notin> fst ` set al \<Longrightarrow> dict_get (al @ bl) k = dict_get bl k"
proof -
  assume "k \<notin> fst ` set al"
  then have "map_of al k = None" by (simp add: map_of_eq_None_iff)
  then show ?thesis by (simp add: dict_get_def map_add_def)
qed

lemma make_meili_dict_full:
  assumes nf: "fst ` set d \<subseteq> set ALL_FIELDS"
    and up: "dict_get d ''upload_ts'' = Some (PDatetime (Datetime s1 m1))"
    and ud: "dict_get d ''update_ts'' = Some (PDatetime (Datetime s2 m2))"
    and fl: "dict_get d ''search_flags'' = Some (PInt sf)"
  shows "make_meili_dict d =
     Inr (dict_setitem ''update_ts'' (PInt s2) (dict_setitem ''upload_ts'' (PInt s1) d)
          @ meili_flags sf)"
proof -
  let ?e0 = "dict_setitem ''upload_ts'' (PInt s1) d"
  let ?e1 = "dict_setitem ''update_ts'' (PInt s2) ?e0"
  have k1: "fst ` set ?e1 = fst ` set d"
    using dict_get_present[OF up] dict_get_present[OF ud]
    by (auto simp: dom_update dict_setitem_def)
  have n: "''epic'' \<notin> fst ` set ?e1" "''magic'' \<notin> fst ` set ?e1" "''awarded'' \<notin> fst ` set ?e1"
    "''legendary'' \<notin> fst ` set ?e1" "''mythical'' \<notin> fst ` set ?e1"
    unfolding k1 using nf meili_keys_not_fields by blast+
  have ud0: "dict_get ?e0 ''update_ts'' = Some (PDatetime (Datetime s2 m2))"
    using ud by (simp add: dict_get_setitem)
  have sfe: "dict_get ?e1 ''search_flags'' = Some (PInt sf)"
    using fl by (simp add: dict_get_setitem)
  have g: "dict_get (?e1 @ bl) ''search_flags'' = Some (PInt sf)" for bl
    using sfe by (rule dict_get_append_left)
  have c: "dict_contains ''search_flags'' ?e1" using sfe by (simp add: dict_contains_def)
  have s1: "dict_setitem ''epic'' v1 ?e1 = ?e1 @ [(''epic'', v1)]" for v1
    using n(1) by (rule setitem_absent)
  have s2: "dict_setitem ''magic'' v2 (?e1 @ [(''epic'', v1)]) = ?e1 @ [(''epic'', v1), (''magic'', v2)]"
    for v1 v2 using n(2) by (simp add: setitem_absent)
  have s3: "dict_setitem ''awarded'' v3 (?e1 @ [(''epic'', v1), (''magic'', v2)])
      = ?e1 @ [(''epic'', v1), (''magic'', v2), (''awarded'', v3)]"
    for v1 v2 v3 using n(3) by (simp add: setitem_absent)
  have s4: "dict_setitem ''legendary'' v4 (?e1 @ [(''epic'', v1), (''magic'', v2), (''awarded'', v3)])
      = ?e1 @ [(''epic'', v1), (''magic'', v2), (''awarded'', v3), (''legendary'', v4)]"
    for v1 v2 v3 v4 using n(4) by (simp add: setitem_absent)
  have s5: "dict_setitem ''mythical'' v5
       (?e1 @ [(''epic'', v1), (''magic'', v2), (''awarded'', v3), (''legendary'', v4)])
      = ?e1 @ [(''epic'', v1), (''magic'', v2), (''awarded'', v3), (''legendary'', v4),
               (''mythical'', v5)]"
    for v1 v2 v3 v4 v5 using n(5) by (simp add: setitem_absent)
  show ?thesis
    unfolding make_meili_dict_def stage_ts[OF up] err_bind_Inr stage_ts[OF ud0]
    by (simp only: c if_True stage_flag[OF sfe] stage_flag[OF g] err_bind_Inr Let_def
        s1 s2 s3 s4 s5 flag_values meili_flags_def)
qed


lemma setitem_append_present:
  "k \<in> fst ` set al \<Longrightarrow> dict_setitem k v (al @ bl) = dict_setitem k v al @ bl"
  by (simp add: dict_setitem_def update_append_present)

lemma setitem_same:
  "dict_get al k = Some v \<Longrightarrow> dict_setitem k v al = al"
  by (simp add: dict_setitem_def dict_get_def update_triv)

lemma setitem_twice: "dict_setitem k v (dict_setitem k v' al) = dict_setitem k v al"
  by (simp add: dict_setitem_def)

lemma setitem_swap:
  "k \<noteq> k' \<Longrightarrow> k \<in> fst ` set al \<Longrightarrow>
   dict_setitem k v (dict_setitem k' v' al) = dict_setitem k' v' (dict_setitem k v al)"
  unfolding dict_setitem_def by (rule update_swap_present)

lemma stage_from_ts:
  "dict_get d k = Some (PInt s) \<Longrightarrow>
   err_bind (dict_getitem d k) from_unix_ts = Inr (PDatetime (Datetime s 0))"
  by (simp add: dict_getitem_def err_bind_def)

lemma stage_or_flag:
  "dict_get d k = Some (PBool b) \<Longrightarrow>
   or_flag d k flag acc = Inr (if b then acc OR flag else acc)"
  by (simp add: or_flag_def dict_getitem_def err_bind_def)

lemma delitem_head:
  "k \<notin> fst ` set al \<Longrightarrow> k \<notin> fst ` set rest \<Longrightarrow>
   dict_delitem k (al @ (k, v) # rest) = Inr (al @ rest)"
  by (simp add: dict_delitem_def delete_append)

lemma from_meili_dict_full:
  assumes nf: "fst ` set d \<subseteq> set ALL_FIELDS"
    and up: "dict_get d ''upload_ts'' = Some (PDatetime (Datetime s1 0))"
    and ud: "dict_get d ''update_ts'' = Some (PDatetime (Datetime s2 0))"
    and fl: "dict_get d ''search_flags'' = Some (PInt sf)"
    and sf: "0 \<le> sf" "sf < 32"
    and song: "dict_contains ''song_ids'' d"
  shows "from_meili_dict
     (dict_setitem ''update_ts'' (PInt s2) (dict_setitem ''upload_ts'' (PInt s1) d)
          @ meili_flags sf) = Inr d"
proof -
  let ?e0 = "dict_setitem ''upload_ts'' (PInt s1) d"
  let ?e1 = "dict_setitem ''update_ts'' (PInt s2) ?e0"
  let ?e2 = "dict_setitem ''update_ts'' (PInt s2) d"
  let ?X = "meili_flags sf"
  let ?T1 = "PDatetime (Datetime s1 0)"
  let ?T2 = "PDatetime (Datetime s2 0)"
  have kup: "''upload_ts'' \<in> fst ` set d" and kud: "''update_ts'' \<in> fst ` set d"
    and kfl: "''search_flags'' \<in> fst ` set d"
    using dict_get_present[OF up] dict_get_present[OF ud] dict_get_present[OF fl] by blast+
  have n: "''epic'' \<notin> fst ` set d" "''magic'' \<notin> fst ` set d" "''awarded'' \<notin> fst ` set d"
    "''legendary'' \<notin> fst ` set d" "''mythical'' \<notin> fst ` set d"
    using nf meili_keys_not_fields by blast+
  have a1: "dict_get (?e1 @ ?X) ''upload_ts'' = Some (PInt s1)"
    by (rule dict_get_append_left) (simp add: dict_get_setitem)
  have k0: "''upload_ts'' \<in> fst ` set ?e0" "''upload_ts'' \<in> fst ` set ?e1"
    using kup by (auto simp: dict_setitem_def dom_update)
  have e1': "dict_setitem ''upload_ts'' ?T1 ?e1 = ?e2"
  proof -
    have "dict_setitem ''upload_ts'' ?T1 ?e1
        = dict_setitem ''update_ts'' (PInt s2) (dict_setitem ''upload_ts'' ?T1 ?e0)"
      by (rule setitem_swap) (simp_all add: k0)
    also have "dict_setitem ''upload_ts'' ?T1 ?e0 = dict_setitem ''upload_ts'' ?T1 d"
      by (rule setitem_twice)
    also have "\<dots> = d" using up by (rule setitem_same)
    finally show ?thesis .
  qed
  have d1: "dict_setitem ''upload_ts'' ?T1 (?e1 @ ?X) = ?e2 @ ?X"
    using setitem_append_present[OF k0(2), of ?T1 ?X] e1' by simp
  have a2: "dict_get (?e2 @ ?X) ''update_ts'' = Some (PInt s2)"
    by (rule dict_get_append_left) (simp add: dict_get_setitem)
  have k2: "''update_ts'' \<in> fst ` set ?e2" by (simp add: dict_setitem_def dom_update)
  have e2': "dict_setitem ''update_ts'' ?T2 ?e2 = d"
    using setitem_same[OF ud] by (simp add: setitem_twice)
  have d2: "dict_setitem ''update_ts'' ?T2 (?e2 @ ?X) = d @ ?X"
    using setitem_append_present[OF k2, of ?T2 ?X] e2' by simp
  have f1: "dict_get (d @ ?X) ''epic'' = Some (PBool (sf AND 1 \<noteq> 0))"
    by (simp add: dict_get_append_right[OF n(1)]) (simp add: dict_get_def meili_flags_def)
  have f2: "dict_get (d @ ?X) ''magic'' = Some (PBool (sf AND 4 \<noteq> 0))"
    by (simp add: dict_get_append_right[OF n(2)]) (simp add: dict_get_def meili_flags_def)
  have f3: "dict_get (d @ ?X) ''awarded'' = Some (PBool (sf AND 2 \<noteq> 0))"
    by (simp add: dict_get_append_right[OF n(3)]) (simp add: dict_get_def meili_flags_def)
  have f4: "dict_get (d @ ?X) ''legendary'' = Some (PBool (sf AND 8 \<noteq> 0))"
    by (simp add: dict_get_append_right[OF n(4)]) (simp add: dict_get_def meili_flags_def)
  have f5: "dict_get (d @ ?X) ''mythical'' = Some (PBool (sf AND 16 \<noteq> 0))"
    by (simp add: dict_get_append_right[OF n(5)]) (simp add: dict_get_def meili_flags_def)
  have rc: "(if sf AND 16 \<noteq> 0
             then (if sf AND 8 \<noteq> 0
                   then (if sf AND 2 \<noteq> 0
                         then (if sf AND 4 \<noteq> 0
                               then (if sf AND 1 \<noteq> 0 then 0 OR 1 else 0) OR 4
                               else (if sf AND 1 \<noteq> 0 then 0 OR 1 else 0)) OR 2
                         else (if sf AND 4 \<noteq> 0
                               then (if sf AND 1 \<noteq> 0 then 0 OR 1 else 0) OR 4
                               else (if sf AND 1 \<noteq> 0 then 0 OR 1 else 0))) OR 8
                   else (if sf AND 2 \<noteq> 0
                         then (if sf AND 4 \<noteq> 0
                               then (if sf AND 1 \<noteq> 0 then 0 OR 1 else 0) OR 4
                               else (if sf AND 1 \<noteq> 0 then 0 OR 1 else 0)) OR 2
                         else (if sf AND 4 \<noteq> 0
                               then (if sf AND 1 \<noteq> 0 then 0 OR 1 else 0) OR 4
                               else (if sf AND 1 \<noteq> 0 then 0 OR 1 else 0)))) OR 16
             else (if sf AND 8 \<noteq> 0
                   then (if sf AND 2 \<noteq> 0
                         then (if sf AND 4 \<noteq> 0
                               then (if sf AND 1 \<noteq> 0 then 0 OR 1 else 0) OR 4
                               else (if sf AND 1 \<noteq> 0 then 0 OR 1 else 0)) OR 2
                         else (if sf AND 4 \<noteq> 0
                               then (if sf AND 1 \<noteq> 0 then 0 OR 1 else 0) OR 4
                               else (if sf AND 1 \<noteq> 0 then 0 OR 1 else 0))) OR 8
                   else (if sf AND 2 \<noteq> 0
                         then (if sf AND 4 \<noteq> 0
                               then (if sf AND 1 \<noteq> 0 then 0 OR 1 else 0) OR 4
                               else (if sf AND 1 \<noteq> 0 then 0 OR 1 else 0)) OR 2
                         else (if sf AND 4 \<noteq> 0
                               then (if sf AND 1 \<noteq> 0 then 0 OR 1 else 0) OR 4
                               else (if sf AND 1 \<noteq> 0 then 0 OR 1 else 0))))) = sf"
    using recombine_id[OF sf] by (simp only: recombine_def Let_def)
  have d3: "dict_setitem ''search_flags'' (PInt sf) (d @ ?X) = d @ ?X"
    using setitem_append_present[OF kfl, of "PInt sf" ?X] setitem_same[OF fl] by simp
  have x1: "dict_delitem ''epic'' (d @ ?X) = Inr (d @ tl ?X)"
    unfolding meili_flags_def list.sel by (rule delitem_head[OF n(1)]) simp
  have x2: "dict_delitem ''magic'' (d @ tl ?X) = Inr (d @ tl (tl ?X))"
    unfolding meili_flags_def list.sel by (rule delitem_head[OF n(2)]) simp
  have x3: "dict_delitem ''awarded'' (d @ tl (tl ?X)) = Inr (d @ tl (tl (tl ?X)))"
    unfolding meili_flags_def list.sel by (rule delitem_head[OF n(3)]) simp
  have x4: "dict_delitem ''legendary'' (d @ tl (tl (tl ?X))) = Inr (d @ tl (tl (tl (tl ?X))))"
    unfolding meili_flags_def list.sel by (rule delitem_head[OF n(4)]) simp
  have x5: "dict_delitem ''mythical'' (d @ tl (tl (tl (tl ?X)))) = Inr d"
    unfolding meili_flags_def list.sel using delitem_head[OF n(5), of "[]"] by simp
  show ?thesis
    unfolding from_meili_dict_def
    by (simp only: stage_from_ts[OF a1] stage_from_ts[OF a2] err_bind_Inr Let_def d1 d2
        stage_or_flag[OF f1] stage_or_flag[OF f2] stage_or_flag[OF f3] stage_or_flag[OF f4]
        stage_or_flag[OF f5] flag_values rc d3 x1 x2 x3 x4 x5 song not_True_eq_False if_False)
qed

lemma parse_empty: "parse_select '''' = None"
  by code_simp

lemma parse_limit_only: "parse_select ('''' @ '' LIMIT 1'') = None"
  by code_simp




lemma level_columns:
  "''id'' \<in> set ALL_FIELDS" "''deleted'' \<in> set ALL_FIELDS"
  by (simp_all add: ALL_FIELDS_def Level_fields_def)

lemma init_fields_lookup:
  "init_fields fs d = Some l \<Longrightarrow> (f, t) \<in> set fs \<Longrightarrow>
   dict_get l f = dict_get d f \<and> (\<exists>v. dict_get d f = Some v \<and> conforms t v)"
proof (induction fs arbitrary: l)
  case Nil
  then show ?case by simp
next
  case (Cons p fs)
  obtain f0 t0 where p: "p = (f0, t0)" by (cases p)
  from Cons.prems(1) obtain v0 l' where
    v0: "dict_get d f0 = Some v0" "conforms t0 v0" and l': "init_fields fs d = Some l'"
    and l: "l = (f0, v0) # l'"
    by (auto simp: p split: option.splits if_splits)
  show ?case
  proof (cases "f = f0")
    case True
    have "dict_get l f = dict_get d f" using v0 by (simp add: l True dict_get_def)
    moreover have "\<exists>v. dict_get d f = Some v \<and> conforms t v"
    proof (cases "(f, t) = p")
      case True
      then show ?thesis using v0 by (simp add: p)
    next
      case False
      with Cons.prems(2) have "(f, t) \<in> set fs" by simp
      from Cons.IH[OF l' this] show ?thesis by blast
    qed
    ultimately show ?thesis by blast
  next
    case False
    with Cons.prems(2) have m: "(f, t) \<in> set fs" by (simp add: p)
    from Cons.IH[OF l' m] False show ?thesis by (simp add: l dict_get_def)
  qed
qed

lemma init_fields_cong:
  "init_fields fs d = Some l \<Longrightarrow> (\<forall>f \<in> fst ` set fs. dict_get d' f = dict_get d f) \<Longrightarrow>
   init_fields fs d' = Some l"
proof (induction fs arbitrary: l)
  case Nil
  then show ?case by simp
next
  case (Cons p fs)
  obtain f0 t0 where p: "p = (f0, t0)" by (cases p)
  from Cons.prems(1) obtain v0 l' where
    v0: "dict_get d f0 = Some v0" "conforms t0 v0" and l': "init_fields fs d = Some l'"
    and l: "l = (f0, v0) # l'"
    by (auto simp: p split: option.splits if_splits)
  have "init_fields fs d' = Some l'" using Cons.IH[OF l'] Cons.prems(2) by simp
  moreover have "dict_get d' f0 = Some v0" using Cons.prems(2) v0 by (simp add: p)
  ultimately show ?case using v0 by (simp add: p l)
qed

lemma init_fields_idem: "init_fields fs d = Some l \<Longrightarrow> init_fields fs l = Some l"
proof -
  assume a: "init_fields fs d = Some l"
  have "\<forall>f \<in> fst ` set fs. dict_get l f = dict_get d f"
    using init_fields_lookup[OF a] by auto
  with a show ?thesis by (rule init_fields_cong)
qed

lemma Level_init_idem: "Level_init d = Inr l \<Longrightarrow> Level_init l = Inr l"
  by (auto simp: Level_init_def split: option.splits dest: init_fields_idem)

















lemma create_unfold:
  "create s nu nd kwargs =
     (case bind_arguments create_required create_defaults kwargs of
        Inl e \<Rightarrow> (Inl e, s)
      | Inr a \<Rightarrow>
          (case Level_init (level_kwargs a nu nd) of
             Inl e \<Rightarrow> (Inl e, s)
           | Inr level \<Rightarrow>
               (case mysql_insert_level s (dict_setitem ''id'' (arg a ''level_id'') level) of
                  (Inl e, s1) \<Rightarrow> (Inl e, s1)
                | (Inr new_id, s1) \<Rightarrow>
                    (case make_meili_dict (dict_setitem ''id'' (PInt new_id) level) of
                       Inl e \<Rightarrow> (Inl e, s1)
                     | Inr meili_dict \<Rightarrow>
                         (Inr (dict_setitem ''id'' (PInt new_id) level),
                          meili_add_documents s1 [meili_dict])))))"
  unfolding create_def level_kwargs_def Let_def model_dump_def by (rule refl)

lemma Level_fields_head:
  "Level_fields = (''id'', TInt) # tl Level_fields" "''id'' \<notin> fst ` set (tl Level_fields)"
  by (simp_all add: Level_fields_def)

lemma Level_init_set_id:
  assumes "Level_init d = Inr l"
  shows "Level_init (dict_setitem ''id'' (PInt n) l) = Inr (dict_setitem ''id'' (PInt n) l)"
proof -
  let ?rf = "tl Level_fields"
  from assms have "init_fields ((''id'', TInt) # ?rf) d = Some l"
    using Level_fields_head(1) by (simp add: Level_init_def split: option.splits)
  then obtain v l' where l: "l = (''id'', v) # l'" and r: "init_fields ?rf d = Some l'"
    by (auto split: option.splits if_splits)
  have l1: "dict_setitem ''id'' (PInt n) l = (''id'', PInt n) # l'"
    by (simp add: l dict_setitem_def)
  have "init_fields ?rf l' = Some l'" using r by (rule init_fields_idem)
  moreover have "\<forall>f \<in> fst ` set ?rf. dict_get ((''id'', PInt n) # l') f = dict_get l' f"
  proof
    fix f assume "f \<in> fst ` set ?rf"
    with Level_fields_head(2) have "f \<noteq> ''id''" by blast
    then show "dict_get ((''id'', PInt n) # l') f = dict_get l' f" by (simp add: dict_get_def)
  qed
  ultimately have "init_fields ?rf ((''id'', PInt n) # l') = Some l'"
    by (rule init_fields_cong)
  then have "init_fields ((''id'', TInt) # ?rf) ((''id'', PInt n) # l') = Some ((''id'', PInt n) # l')"
    by (simp add: dict_get_def)
  then show ?thesis unfolding l1 Level_init_def using Level_fields_head(1) by simp
qed

lemma init_fields_keys: "init_fields fs d = Some l \<Longrightarrow> map fst l = map fst fs"
  by (induction fs arbitrary: l) (auto split: option.splits if_splits)

lemma Level_init_keys: "Level_init d = Inr l \<Longrightarrow> map fst l = ALL_FIELDS"
  by (auto simp: Level_init_def ALL_FIELDS_def split: option.splits dest: init_fields_keys)

lemma setitem_keys_present:
  "k \<in> fst ` set d \<Longrightarrow> map fst (dict_setitem k v d) = map fst d"
  by (simp add: dict_setitem_def update_keys)

lemma all_fields_bound:
  assumes "map fst d = ALL_FIELDS"
  shows "list_all (\<lambda>f. dict_contains f d) ALL_FIELDS"
proof -
  have "\<forall>f \<in> set ALL_FIELDS. dict_contains f d"
  proof
    fix f assume "f \<in> set ALL_FIELDS"
    then have "f \<in> fst ` set d" using assms by (metis set_map)
    then show "dict_contains f d"
      by (simp add: dict_contains_def dict_get_def map_of_eq_None_iff)
  qed
  then show ?thesis by (simp add: list_all_iff)
qed

lemma counter_fresh_no_row:
  assumes "counter_fresh s" "r \<in> set (levels_rows s)"
  shows "\<not> column_eq r ''id'' (PInt (levels_auto_increment s))"
proof
  assume c: "column_eq r ''id'' (PInt (levels_auto_increment s))"
  from assms have f: "case dict_get r ''id'' of
                      Some (PInt i) \<Rightarrow> i < levels_auto_increment s
                    | Some (PBool b) \<Rightarrow> 1 < levels_auto_increment s
                    | _ \<Rightarrow> True"
    by (simp add: counter_fresh_def list_all_iff)
  from c obtain w where w: "dict_get r ''id'' = Some w" "sql_eq w (PInt (levels_auto_increment s))"
    by (auto simp: column_eq_def split: option.splits)
  from w(2) f w(1) show False
    by (cases w) (auto simp: sql_eq_def split: if_splits)
qed

lemma insert_level_result:
  assumes cf: "counter_fresh s" and l0: "Level_init d = Inr level0"
    and ins: "mysql_insert_level s (dict_setitem ''id'' v level0) = (Inr new_id, s1)"
  shows "levels_rows s1 = levels_rows s @ [dict_setitem ''id'' (PInt new_id) level0]
       \<and> meili_levels s1 = meili_levels s
       \<and> (\<forall>r \<in> set (levels_rows s). \<not> column_eq r ''id'' (PInt new_id))
       \<and> (v = PNone \<longrightarrow> new_id = levels_auto_increment s
             \<and> levels_auto_increment s1 = new_id + 1)"
proof -
  have keys: "map fst level0 = ALL_FIELDS" using l0 by (rule Level_init_keys)
  have idin: "''id'' \<in> fst ` set level0" using keys level_columns(1) by (metis set_map)
  have keys': "map fst (dict_setitem ''id'' v level0) = ALL_FIELDS"
    using setitem_keys_present[OF idin] keys by simp
  have b: "list_all (\<lambda>f. dict_contains f (dict_setitem ''id'' v level0)) ALL_FIELDS"
    using keys' by (rule all_fields_bound)
  have g: "dict_get (dict_setitem ''id'' v level0) ''id'' = Some v" by (simp add: dict_get_setitem)
  show ?thesis
  proof (cases v)
    case PNone
    with ins b g have n: "new_id = levels_auto_increment s"
      and s1: "s1 = s\<lparr>levels_rows := levels_rows s @
                 [dict_setitem ''id'' (PInt new_id) (dict_setitem ''id'' v level0)],
               levels_auto_increment := new_id + 1\<rparr>"
      by (auto simp: mysql_insert_level_def Let_def)
    have "\<forall>r \<in> set (levels_rows s). \<not> column_eq r ''id'' (PInt new_id)"
      unfolding n using counter_fresh_no_row[OF cf] by blast
    with n s1 PNone show ?thesis by (simp add: setitem_twice)
  next
    case (PInt i)
    with ins b g have n: "new_id = i"
      and ex: "\<not> list_ex (\<lambda>r. column_eq r ''id'' (PInt i)) (levels_rows s)"
      and s1: "s1 = s\<lparr>levels_rows := levels_rows s @ [dict_setitem ''id'' v level0],
               levels_auto_increment := max (levels_auto_increment s) (i + 1)\<rparr>"
      by (auto simp: mysql_insert_level_def Let_def split: if_splits)
    from ex have "\<forall>r \<in> set (levels_rows s). \<not> column_eq r ''id'' (PInt new_id)"
      by (simp add: n list_ex_iff)
    with n s1 PInt show ?thesis by simp
  next
    case (PBool x)
    with ins b g show ?thesis by (simp add: mysql_insert_level_def)
  next
    case (PStr x)
    with ins b g show ?thesis by (simp add: mysql_insert_level_def)
  next
    case (PDatetime x)
    with ins b g show ?thesis by (simp add: mysql_insert_level_def)
  next
    case (PList x)
    with ins b g show ?thesis by (simp add: mysql_insert_level_def)
  qed
qed

lemma bind_arguments_default:
  assumes "bind_arguments create_required create_defaults kwargs = Inr a"
    and "dict_get create_defaults k = Some dflt"
  shows "arg a k = (case dict_get kwargs k of None \<Rightarrow> dflt | Some v \<Rightarrow> v)"
proof -
  have nr: "k \<notin> set create_required"
    using assms(2)
    by (auto simp: create_required_def create_defaults_def dict_get_def split: if_splits)
  from assms(1) have a: "a = map (\<lambda>k. (k, case dict_get kwargs k of None \<Rightarrow> PNone | Some v \<Rightarrow> v))
        create_required
      @ map (\<lambda>(k, dflt). (k, case dict_get kwargs k of None \<Rightarrow> dflt | Some v \<Rightarrow> v))
          create_defaults"
    by (simp add: bind_arguments_def split: if_splits)
  have m1: "map_of (map (\<lambda>k. (k, g k)) create_required) k = None" for g :: "string \<Rightarrow> pyval"
    using nr by (simp add: map_of_eq_None_iff image_image)
  have m2: "map_of (map (\<lambda>(k, dflt). (k, h k dflt)) ds) k = map_option (h k) (map_of ds k)"
    for ds :: pyobj and h :: "string \<Rightarrow> pyval \<Rightarrow> pyval"
    by (induction ds) auto
  show ?thesis
    using assms(2) by (simp add: arg_def a dict_get_def map_add_def m1 m2)
qed

lemma level_kwargs_lookup:
  "dict_get (level_kwargs a nu nd) ''deleted'' = Some (arg a ''deleted'')"
  "dict_get (level_kwargs a nu nd) ''upload_ts'' =
     Some (if arg a ''upload_ts'' = PNone then PDatetime nu else arg a ''upload_ts'')"
  "dict_get (level_kwargs a nu nd) ''update_ts'' =
     Some (if arg a ''update_ts'' = PNone then PDatetime nd else arg a ''update_ts'')"
  by (simp_all add: level_kwargs_def dict_get_def)

lemma create_defaults_lookup:
  "dict_get create_defaults ''deleted'' = Some (PBool False)"
  "dict_get create_defaults ''upload_ts'' = Some PNone"
  "dict_get create_defaults ''update_ts'' = Some PNone"
  "dict_get create_defaults ''level_id'' = Some PNone"
  by (simp_all add: create_defaults_def dict_get_def)

lemma level_field_types:
  "(''deleted'', TBool) \<in> set Level_fields"
  "(''upload_ts'', TDatetime) \<in> set Level_fields"
  "(''update_ts'', TDatetime) \<in> set Level_fields"
  by (simp_all add: Level_fields_def)





section \<open>Properties of the account repository\<close>

lemma from_db_result:
  "from_db s k = (r, s1) \<Longrightarrow>
   s1 = s\<lparr>db_queries := db_queries s @ [k]\<rparr> \<and> (\<forall>a. r = Some a \<longrightarrow> acc_id a = k)"
  by (auto simp: from_db_def accounts_fetch_one_def split: option.splits dest: find_Some_iff[THEN iffD1])


section \<open>The claims about the memory caches\<close>

text \<open>
  C10.  An LRU cache (synchronous or asynchronous) built with a capacity \<open>C \<ge> 1\<close> never
  holds more than \<open>C\<close> entries: every sequence of \<open>get\<close>, \<open>set\<close> and \<open>delete\<close> calls
  on the empty cache runs without an exception and ends in a cache of at most \<open>C\<close> entries
  (the sequence is arbitrary, so the bound holds after each of its calls).  \<open>set\<close> brings
  the dict below the capacity before it stores the entry, whatever the dict holds and
  whether or not the key is already present.
\<close>

theorem lru_capacity_invariant:
  assumes "1 \<le> C"
  shows "(\<exists>c h'. LRUMemoryCache_run (lru_init C, h) ops = Inr (c, h') \<and> capacity c = C \<and>
            int (length (cache c)) \<le> C)
       \<and> (\<exists>c. LRUAsyncMemoryCache_run (lru_init C) ops = Inr c \<and> capacity c = C \<and>
            int (length (cache c)) \<le> C)
       \<and> (capacity c0 = C \<longrightarrow>
            (\<exists>d. evict C (cache c0) = Inr d \<and> int (length d) < C \<and>
              LRUMemoryCache_set c0 k v =
                Inr (c0\<lparr>cache := dict_setitem (ensure_key_type k) v d\<rparr>) \<and>
              LRUAsyncMemoryCache_set c0 k v =
                Inr (c0\<lparr>cache := dict_setitem (ensure_key_type k) v d\<rparr>) \<and>
              int (length (dict_setitem (ensure_key_type k) v d)) \<le> C))"
proof -
  have i: "1 \<le> capacity (lru_init C)" "int (length (cache (lru_init C))) \<le> capacity (lru_init C)"
    using assms by (simp_all add: lru_init_def)
  have ci: "capacity (lru_init C) = C" by (simp add: lru_init_def)
  have a: "\<exists>c h'. LRUMemoryCache_run (lru_init C, h) ops = Inr (c, h') \<and> capacity c = C \<and>
            int (length (cache c)) \<le> C"
    using run_bound[OF i, of h ops] unfolding ci by metis
  have b: "\<exists>c. LRUAsyncMemoryCache_run (lru_init C) ops = Inr c \<and> capacity c = C \<and>
            int (length (cache c)) \<le> C"
    using async_run_bound[OF i, of ops] unfolding ci by metis
  have c: "capacity c0 = C \<longrightarrow>
            (\<exists>d. evict C (cache c0) = Inr d \<and> int (length d) < C \<and>
              LRUMemoryCache_set c0 k v =
                Inr (c0\<lparr>cache := dict_setitem (ensure_key_type k) v d\<rparr>) \<and>
              LRUAsyncMemoryCache_set c0 k v =
                Inr (c0\<lparr>cache := dict_setitem (ensure_key_type k) v d\<rparr>) \<and>
              int (length (dict_setitem (ensure_key_type k) v d)) \<le> C)"
  proof
    assume cap: "capacity c0 = C"
    then have "1 \<le> capacity c0" using assms by simp
    from set_bound[OF this, of k v] show "\<exists>d. evict C (cache c0) = Inr d \<and> int (length d) < C \<and>
              LRUMemoryCache_set c0 k v =
                Inr (c0\<lparr>cache := dict_setitem (ensure_key_type k) v d\<rparr>) \<and>
              LRUAsyncMemoryCache_set c0 k v =
                Inr (c0\<lparr>cache := dict_setitem (ensure_key_type k) v d\<rparr>) \<and>
              int (length (dict_setitem (ensure_key_type k) v d)) \<le> C"
      unfolding cap .
  qed
  from a b c show ?thesis by blast
qed

theorem lru_capacity_invariant_witness:
  "(\<exists>c h'. LRUMemoryCache_run (lru_init 2, \<lparr>cells = (\<lambda>_. 0::nat), next_addr = 3\<rparr>)
        [Set (IntKey 1) 0, Set (StrKey ''a'') 1, Get (StrKey ''1''), Set (IntKey 1) 2,
         Delete (IntKey 7), Set (IntKey 3) 2] = Inr (c, h') \<and> capacity c = 2 \<and>
        int (length (cache c)) \<le> 2)
   \<and> (\<exists>c. LRUAsyncMemoryCache_run (lru_init 2)
        [Set (IntKey 1) 0, Set (StrKey ''a'') 1, Get (StrKey ''1''), Set (IntKey 1) 2,
         Delete (IntKey 7), Set (IntKey 3) 2] = Inr c \<and> capacity c = 2 \<and>
        int (length (cache c)) \<le> 2)
   \<and> (\<exists>d. evict 2 (cache \<lparr>capacity = 2, cache = [(''1'', 0), (''a'', 1)]\<rparr>) = Inr d \<and>
        int (length d) < 2 \<and>
        LRUMemoryCache_set \<lparr>capacity = 2, cache = [(''1'', 0), (''a'', 1)]\<rparr> (IntKey 1) 2 =
          Inr (\<lparr>capacity = 2, cache = [(''1'', 0), (''a'', 1)]\<rparr>
                \<lparr>cache := dict_setitem (ensure_key_type (IntKey 1)) 2 d\<rparr>))"
proof -
  have h: "(1::int) \<le> 2" by simp
  have cap: "capacity \<lparr>capacity = 2, cache = [(''1'', 0), (''a'', 1)]\<rparr> = 2" by simp
  from lru_capacity_invariant[OF h, of "\<lparr>cells = (\<lambda>_. 0::nat), next_addr = 3\<rparr>"
      "[Set (IntKey 1) 0, Set (StrKey ''a'') 1, Get (StrKey ''1''), Set (IntKey 1) 2,
         Delete (IntKey 7), Set (IntKey 3) 2]"
      "\<lparr>capacity = 2, cache = [(''1'', 0), (''a'', 1)]\<rparr>" "IntKey 1" 2] cap
  show ?thesis by blast
qed

text \<open>
  C3.  For the LRU cache of capacity \<open>C\<close> (\<open>C \<ge> 1\<close>; the keys are compared after
  \<open>_ensure_key_type\<close>): (1) inserting \<open>C + 1\<close> different keys into the empty cache leaves
  all of them but the first one inserted, the least recently accessed; (2) a \<open>get\<close> of a
  present key moves the key to the end of the dict, the most recently used position;
  (3) therefore, on a full cache, the key removed by the next \<open>set\<close> of a new key is the
  head of the order as the \<open>get\<close> left it, not the head of the order before the \<open>get\<close>;
  (4) \<open>set\<close> removes entries from the head of the dict, one per loop round, exactly
  until fewer than \<open>C\<close> are left, and only then stores the entry.
\<close>

theorem lru_evicts_least_recently_used:
  assumes "1 \<le> C"
  shows "(length ks = Suc (nat C) \<and> length vs = length ks \<and>
            distinct (map ensure_key_type ks) \<longrightarrow>
          (\<exists>c. LRUMemoryCache_set_all (lru_init C) (zip ks vs) = Inr c \<and>
               map fst (cache c) = map ensure_key_type (tl ks)))
       \<and> (dict_get (cache c0) (ensure_key_type k) = Some a \<longrightarrow>
          (\<exists>c1. LRUMemoryCache_get c0 h k = (Some (next_addr h), c1, fst (copy h a)) \<and>
             map fst (cache c1) =
               removeAll (ensure_key_type k) (map fst (cache c0)) @ [ensure_key_type k]))
       \<and> (capacity c0 = C \<and> int (length (cache c0)) = C \<and> distinct (map fst (cache c0)) \<and>
          dict_get (cache c0) (ensure_key_type k) = Some a \<and>
          ensure_key_type k' \<notin> set (map fst (cache c0)) \<longrightarrow>
          (\<exists>c1 c2 c3 r h1.
             LRUMemoryCache_set c0 k' v = Inr c3 \<and>
             map fst (cache c3) = tl (map fst (cache c0)) @ [ensure_key_type k'] \<and>
             LRUMemoryCache_get c0 h k = (r, c1, h1) \<and>
             LRUMemoryCache_set c1 k' v = Inr c2 \<and>
             map fst (cache c2) =
               tl (removeAll (ensure_key_type k) (map fst (cache c0)) @ [ensure_key_type k])
                 @ [ensure_key_type k']))
       \<and> (capacity c0 = C \<and> distinct (map fst (cache c0)) \<longrightarrow>
          LRUMemoryCache_set c0 k v =
            Inr (c0\<lparr>cache := dict_setitem (ensure_key_type k) v
                    (drop (length (cache c0) + 1 - nat C) (cache c0))\<rparr>))"
proof -
  have p1: "length ks = Suc (nat C) \<and> length vs = length ks \<and>
            distinct (map ensure_key_type ks) \<longrightarrow>
          (\<exists>c. LRUMemoryCache_set_all (lru_init C) (zip ks vs) = Inr c \<and>
               map fst (cache c) = map ensure_key_type (tl ks))"
  proof
    assume A: "length ks = Suc (nat C) \<and> length vs = length ks \<and>
            distinct (map ensure_key_type ks)"
    have n1: "1 \<le> nat C" using assms by simp
    have capn: "capacity (lru_init C) = int (nat C)" using assms by (simp add: lru_init_def)
    have l0: "length (cache (lru_init C)) \<le> nat C" by (simp add: lru_init_def)
    have mz: "map fst (zip ks vs) = ks" using A by (simp add: map_fst_zip)
    have d0: "distinct (map fst (cache (lru_init C)) @ map ensure_key_type (map fst (zip ks vs)))"
      using A by (simp add: lru_init_def mz)
    from set_all_keys[OF n1 capn l0 d0] obtain c where
      c: "LRUMemoryCache_set_all (lru_init C) (zip ks vs) = Inr c"
         "map fst (cache c) = drop (length (cache (lru_init C)) + length (zip ks vs) - nat C)
            (map fst (cache (lru_init C)) @ map ensure_key_type (map fst (zip ks vs)))"
      by blast
    have "map fst (cache c) = drop 1 (map ensure_key_type ks)"
      using c(2) A by (simp add: lru_init_def mz)
    then have "map fst (cache c) = map ensure_key_type (tl ks)"
      by (simp add: drop_Suc map_tl)
    with c(1) show "\<exists>c. LRUMemoryCache_set_all (lru_init C) (zip ks vs) = Inr c \<and>
               map fst (cache c) = map ensure_key_type (tl ks)" by blast
  qed
  have p2: "dict_get (cache c0) (ensure_key_type k) = Some a \<longrightarrow>
          (\<exists>c1. LRUMemoryCache_get c0 h k = (Some (next_addr h), c1, fst (copy h a)) \<and>
             map fst (cache c1) =
               removeAll (ensure_key_type k) (map fst (cache c0)) @ [ensure_key_type k])"
    using get_present[of c0 k a h] by blast
  have p3: "capacity c0 = C \<and> int (length (cache c0)) = C \<and> distinct (map fst (cache c0)) \<and>
          dict_get (cache c0) (ensure_key_type k) = Some a \<and>
          ensure_key_type k' \<notin> set (map fst (cache c0)) \<longrightarrow>
          (\<exists>c1 c2 c3 r h1.
             LRUMemoryCache_set c0 k' v = Inr c3 \<and>
             map fst (cache c3) = tl (map fst (cache c0)) @ [ensure_key_type k'] \<and>
             LRUMemoryCache_get c0 h k = (r, c1, h1) \<and>
             LRUMemoryCache_set c1 k' v = Inr c2 \<and>
             map fst (cache c2) =
               tl (removeAll (ensure_key_type k) (map fst (cache c0)) @ [ensure_key_type k])
                 @ [ensure_key_type k'])"
  proof
    assume A: "capacity c0 = C \<and> int (length (cache c0)) = C \<and> distinct (map fst (cache c0)) \<and>
          dict_get (cache c0) (ensure_key_type k) = Some a \<and>
          ensure_key_type k' \<notin> set (map fst (cache c0))"
    let ?ks = "ensure_key_type k"
    have cap: "1 \<le> capacity c0" using A assms by simp
    have full: "int (length (cache c0)) = capacity c0" using A by simp
    from set_full_new[OF cap full, of k' v] A obtain c3 where
      c3: "LRUMemoryCache_set c0 k' v = Inr c3"
          "map fst (cache c3) = tl (map fst (cache c0)) @ [ensure_key_type k']" by blast
    from get_present[of c0 k a h] A obtain c1 where
      c1: "LRUMemoryCache_get c0 h k = (Some (next_addr h), c1, fst (copy h a))"
          "capacity c1 = capacity c0"
          "map fst (cache c1) = removeAll ?ks (map fst (cache c0)) @ [?ks]" by blast
    have kin: "?ks \<in> set (map fst (cache c0))"
      using A by (metis dict_get_def map_of_eq_None_iff option.distinct(1) set_map)
    have ne: "ensure_key_type k' \<noteq> ?ks" by (metis A kin)
    have len1: "length (map fst (cache c1)) = length (map fst (cache c0))"
      unfolding c1(3) using length_removeAll_distinct[OF _ kin] A by simp
    have full1: "int (length (cache c1)) = capacity c1"
      using len1 full c1(2) by simp
    have d1: "distinct (map fst (cache c1))"
      unfolding c1(3) using A by (simp add: distinct_removeAll)
    have n1: "ensure_key_type k' \<notin> set (map fst (cache c1))"
      unfolding c1(3) using A ne by simp
    have cap1: "1 \<le> capacity c1" using cap c1(2) by simp
    from set_full_new[OF cap1 full1 d1 n1, of v] obtain c2 where
      c2: "LRUMemoryCache_set c1 k' v = Inr c2"
          "map fst (cache c2) = tl (map fst (cache c1)) @ [ensure_key_type k']" by blast
    from c3 c1(1) c2 show "\<exists>c1 c2 c3 r h1.
             LRUMemoryCache_set c0 k' v = Inr c3 \<and>
             map fst (cache c3) = tl (map fst (cache c0)) @ [ensure_key_type k'] \<and>
             LRUMemoryCache_get c0 h k = (r, c1, h1) \<and>
             LRUMemoryCache_set c1 k' v = Inr c2 \<and>
             map fst (cache c2) =
               tl (removeAll (ensure_key_type k) (map fst (cache c0)) @ [ensure_key_type k])
                 @ [ensure_key_type k']"
      unfolding c1(3) by blast
  qed
  have p4: "capacity c0 = C \<and> distinct (map fst (cache c0)) \<longrightarrow>
          LRUMemoryCache_set c0 k v =
            Inr (c0\<lparr>cache := dict_setitem (ensure_key_type k) v
                    (drop (length (cache c0) + 1 - nat C) (cache c0))\<rparr>)"
    using evict_distinct[of "cache c0" C] assms by (auto simp: LRUMemoryCache_set_def)
  from p1 p2 p3 p4 show ?thesis by blast
qed


theorem lru_evicts_least_recently_used_witness:
  "(\<exists>c. LRUMemoryCache_set_all (lru_init 2)
          (zip [IntKey 1, StrKey ''b'', IntKey 3] [10, 11, 12]) = Inr c \<and>
        map fst (cache c) = map ensure_key_type (tl [IntKey 1, StrKey ''b'', IntKey 3]))
   \<and> (\<exists>c1 c2 c3 r h1.
        LRUMemoryCache_set \<lparr>capacity = 2, cache = [(''1'', 10), (''b'', 11)]\<rparr> (StrKey ''c'') 12
          = Inr c3 \<and>
        map fst (cache c3) =
          tl (map fst (cache \<lparr>capacity = 2, cache = [(''1'', 10), (''b'', 11)]\<rparr>))
            @ [ensure_key_type (StrKey ''c'')] \<and>
        LRUMemoryCache_get \<lparr>capacity = 2, cache = [(''1'', 10), (''b'', 11)]\<rparr>
          \<lparr>cells = (\<lambda>_. 0::nat), next_addr = 20\<rparr> (IntKey 1) = (r, c1, h1) \<and>
        LRUMemoryCache_set c1 (StrKey ''c'') 12 = Inr c2 \<and>
        map fst (cache c2) =
          tl (removeAll (ensure_key_type (IntKey 1))
                (map fst (cache \<lparr>capacity = 2, cache = [(''1'', 10), (''b'', 11)]\<rparr>))
              @ [ensure_key_type (IntKey 1)])
            @ [ensure_key_type (StrKey ''c'')])
   \<and> LRUMemoryCache_set \<lparr>capacity = 2, cache = [(''1'', 10), (''b'', 11)]\<rparr> (IntKey 1) 12 =
       Inr (\<lparr>capacity = 2, cache = [(''1'', 10), (''b'', 11)]\<rparr>
         \<lparr>cache := dict_setitem (ensure_key_type (IntKey 1)) 12
            (drop (length (cache \<lparr>capacity = 2, cache = [(''1'', 10), (''b'', 11)]\<rparr>) + 1 - nat 2)
               (cache \<lparr>capacity = 2, cache = [(''1'', 10), (''b'', 11)]\<rparr>))\<rparr>)"
proof -
  let ?c0 = "\<lparr>capacity = 2, cache = [(''1'', 10), (''b'', 11)]\<rparr>"
  have h: "(1::int) \<le> 2" by simp
  have a1: "length [IntKey 1, StrKey ''b'', IntKey 3] = Suc (nat 2) \<and>
      length [10::nat, 11, 12] = length [IntKey 1, StrKey ''b'', IntKey 3] \<and>
      distinct (map ensure_key_type [IntKey 1, StrKey ''b'', IntKey 3])"
    by code_simp
  have a3: "capacity ?c0 = 2 \<and> int (length (cache ?c0)) = 2 \<and> distinct (map fst (cache ?c0)) \<and>
      dict_get (cache ?c0) (ensure_key_type (IntKey 1)) = Some 10 \<and>
      ensure_key_type (StrKey ''c'') \<notin> set (map fst (cache ?c0))"
    by code_simp
  have a4: "capacity ?c0 = 2 \<and> distinct (map fst (cache ?c0))"
    using a3 by blast
  from lru_evicts_least_recently_used[OF h, of "[IntKey 1, StrKey ''b'', IntKey 3]"
      "[10, 11, 12]" ?c0 "IntKey 1" 10 "\<lparr>cells = (\<lambda>_. 0::nat), next_addr = 20\<rparr>"
      "StrKey ''c''" 12] a1 a3 a4
  show ?thesis by blast
qed


text \<open>
  C7.  Keys that \<open>_ensure_key_type\<close> prints alike address one slot, in all four caches
  (the LRU ones built with a capacity of at least 1): after \<open>set(k1, v)\<close>, \<open>get(k2)\<close>
  returns \<open>v\<close> (the synchronous caches return a copy of it, an object with the contents of
  \<open>v\<close>), and after \<open>delete(k2)\<close> a \<open>get(k1)\<close> misses.  The integer 1 and the string
  \<open>"1"\<close> are such keys, in both orders.
\<close>

theorem cache_key_canonicalization:
  assumes "ensure_key_type k1 = ensure_key_type k2"
  shows "SimpleMemoryCache_get (SimpleMemoryCache_set c k1 v) h k2 =
           (Some (next_addr h), fst (copy h v))
       \<and> observed (fst (copy h v)) (Some (next_addr h)) = Some (cells h v)
       \<and> SimpleAsyncMemoryCache_get (SimpleAsyncMemoryCache_set c k1 v) k2 = Some v
       \<and> SimpleMemoryCache_get (SimpleMemoryCache_delete (SimpleMemoryCache_set c k1 v) k2) h k1 =
           (None, h)
       \<and> SimpleAsyncMemoryCache_get
            (SimpleAsyncMemoryCache_delete (SimpleAsyncMemoryCache_set c k1 v) k2) k1 = None
       \<and> (1 \<le> capacity l \<longrightarrow>
           (\<exists>l1 l2. LRUMemoryCache_set l k1 v = Inr l1 \<and>
              LRUMemoryCache_get l1 h k2 = (Some (next_addr h), l2, fst (copy h v)) \<and>
              LRUMemoryCache_get (LRUMemoryCache_delete l1 k2) h k1 =
                (None, LRUMemoryCache_delete l1 k2, h) \<and>
              LRUAsyncMemoryCache_set l k1 v = Inr l1 \<and>
              fst (LRUAsyncMemoryCache_get l1 k2) = Some v \<and>
              fst (LRUAsyncMemoryCache_get (LRUAsyncMemoryCache_delete l1 k2) k1) = None))"
proof -
  let ?s = "ensure_key_type k2"
  have e: "ensure_key_type k1 = ?s" by (rule assms)
  have p1: "SimpleMemoryCache_get (SimpleMemoryCache_set c k1 v) h k2 =
           (Some (next_addr h), fst (copy h v))"
    by (simp add: SimpleMemoryCache_get_def SimpleMemoryCache_set_def e dict_get_setitem copy_def)
  have p2: "observed (fst (copy h v)) (Some (next_addr h)) = Some (cells h v)"
    by (simp add: observed_def copy_def)
  have p3: "SimpleAsyncMemoryCache_get (SimpleAsyncMemoryCache_set c k1 v) k2 = Some v"
    by (simp add: SimpleAsyncMemoryCache_get_def SimpleAsyncMemoryCache_set_def e dict_get_setitem)
  have p4: "SimpleMemoryCache_get (SimpleMemoryCache_delete (SimpleMemoryCache_set c k1 v) k2) h k1 =
           (None, h)"
    by (simp add: SimpleMemoryCache_get_def SimpleMemoryCache_delete_def e dict_get_delitem)
  have p5: "SimpleAsyncMemoryCache_get
            (SimpleAsyncMemoryCache_delete (SimpleAsyncMemoryCache_set c k1 v) k2) k1 = None"
    by (simp add: SimpleAsyncMemoryCache_get_def SimpleAsyncMemoryCache_delete_def e
        dict_get_delitem)
  have p6: "1 \<le> capacity l \<longrightarrow>
           (\<exists>l1 l2. LRUMemoryCache_set l k1 v = Inr l1 \<and>
              LRUMemoryCache_get l1 h k2 = (Some (next_addr h), l2, fst (copy h v)) \<and>
              LRUMemoryCache_get (LRUMemoryCache_delete l1 k2) h k1 =
                (None, LRUMemoryCache_delete l1 k2, h) \<and>
              LRUAsyncMemoryCache_set l k1 v = Inr l1 \<and>
              fst (LRUAsyncMemoryCache_get l1 k2) = Some v \<and>
              fst (LRUAsyncMemoryCache_get (LRUAsyncMemoryCache_delete l1 k2) k1) = None)"
  proof
    assume cap: "1 \<le> capacity l"
    from set_bound[OF cap, of k1 v] obtain d where
      d: "LRUMemoryCache_set l k1 v = Inr (l\<lparr>cache := dict_setitem ?s v d\<rparr>)"
         "LRUAsyncMemoryCache_set l k1 v = Inr (l\<lparr>cache := dict_setitem ?s v d\<rparr>)"
      unfolding e by blast
    let ?l1 = "l\<lparr>cache := dict_setitem ?s v d\<rparr>"
    have g: "dict_get (cache ?l1) ?s = Some v" by (simp add: dict_get_setitem)
    from get_present[of ?l1 k2 v h, OF g] obtain l2 where
      l2: "LRUMemoryCache_get ?l1 h k2 = (Some (next_addr h), l2, fst (copy h v))" by blast
    have del: "dict_get (cache (LRUMemoryCache_delete ?l1 k2)) ?s = None"
      using dict_get_delitem[where k="?s" and d="cache ?l1"]
      by (simp add: LRUMemoryCache_delete_def split: sum.splits)
    have g3: "LRUMemoryCache_get (LRUMemoryCache_delete ?l1 k2) h k1 =
                (None, LRUMemoryCache_delete ?l1 k2, h)"
      using del by (simp add: LRUMemoryCache_get_def e Let_def)
    have a1: "fst (LRUAsyncMemoryCache_get ?l1 k2) = Some v"
      using g by (simp add: LRUAsyncMemoryCache_get_def Let_def)
    have a2: "fst (LRUAsyncMemoryCache_get (LRUAsyncMemoryCache_delete ?l1 k2) k1) = None"
      using del by (simp add: LRUAsyncMemoryCache_get_def e async_delete_eq Let_def)
    from d l2 g3 a1 a2 show "\<exists>l1 l2. LRUMemoryCache_set l k1 v = Inr l1 \<and>
              LRUMemoryCache_get l1 h k2 = (Some (next_addr h), l2, fst (copy h v)) \<and>
              LRUMemoryCache_get (LRUMemoryCache_delete l1 k2) h k1 =
                (None, LRUMemoryCache_delete l1 k2, h) \<and>
              LRUAsyncMemoryCache_set l k1 v = Inr l1 \<and>
              fst (LRUAsyncMemoryCache_get l1 k2) = Some v \<and>
              fst (LRUAsyncMemoryCache_get (LRUAsyncMemoryCache_delete l1 k2) k1) = None"
      by blast
  qed
  from p1 p2 p3 p4 p5 p6 show ?thesis by blast
qed

theorem cache_key_canonicalization_witness:
  "ensure_key_type (IntKey 1) = ensure_key_type (StrKey ''1'')
   \<and> SimpleMemoryCache_get (SimpleMemoryCache_set [] (IntKey 1) 0)
        \<lparr>cells = (\<lambda>_. ''v''), next_addr = 1\<rparr> (StrKey ''1'') =
        (Some (next_addr \<lparr>cells = (\<lambda>_. ''v''), next_addr = 1\<rparr>),
         fst (copy \<lparr>cells = (\<lambda>_. ''v''), next_addr = 1\<rparr> 0))
   \<and> SimpleAsyncMemoryCache_get (SimpleAsyncMemoryCache_set [] (IntKey 1) 0) (StrKey ''1'') = Some 0
   \<and> SimpleAsyncMemoryCache_get (SimpleAsyncMemoryCache_set [] (StrKey ''1'') 0) (IntKey 1) = Some 0
   \<and> (\<exists>l1 l2. LRUMemoryCache_set (lru_init 1) (StrKey ''1'') 0 = Inr l1 \<and>
         LRUMemoryCache_get l1 \<lparr>cells = (\<lambda>_. ''v''), next_addr = 1\<rparr> (IntKey 1) =
           (Some (next_addr \<lparr>cells = (\<lambda>_. ''v''), next_addr = 1\<rparr>), l2,
            fst (copy \<lparr>cells = (\<lambda>_. ''v''), next_addr = 1\<rparr> 0)) \<and>
         LRUAsyncMemoryCache_set (lru_init 1) (StrKey ''1'') 0 = Inr l1 \<and>
         fst (LRUAsyncMemoryCache_get l1 (IntKey 1)) = Some 0)"
proof -
  have e: "ensure_key_type (IntKey 1) = ensure_key_type (StrKey ''1'')" by code_simp
  have cap: "1 \<le> capacity (lru_init 1)" by (simp add: lru_init_def)
  from cache_key_canonicalization[OF e, of "[]" 0 "\<lparr>cells = (\<lambda>_. ''v''), next_addr = 1\<rparr>"
      "lru_init 1"]
    cache_key_canonicalization[OF e[symmetric], of "[]" 0
      "\<lparr>cells = (\<lambda>_. ''v''), next_addr = 1\<rparr>" "lru_init 1"] e cap
  show ?thesis by blast
qed

text \<open>
  C4, as the code has it.  The synchronous and the asynchronous caches keep the same dict
  under the same calls (\<open>set\<close> and \<open>delete\<close> agree, up to the \<open>StopIteration\<close> of an LRU
  \<open>set\<close> with a capacity below 1, which a coroutine turns into \<open>RuntimeError\<close>; \<open>get\<close>
  leaves the same dict).  They differ in what \<open>get\<close> returns for a hit: the asynchronous
  \<open>get\<close> returns the cached reference itself, the synchronous \<open>get\<close> returns a fresh
  object with the contents of the cached one, so that replacing the contents of the
  returned object changes nothing of what later synchronous gets observe.  The hypothesis
  states that the cached references are allocated objects.  \<open>set\<close> stores the reference it
  is given in every variant.
\<close>

theorem sync_get_copies_async_get_aliases:
  assumes "\<forall>a \<in> snd ` set (cache c). a < next_addr h"
  shows "fst (snd (LRUMemoryCache_get c h k)) = snd (LRUAsyncMemoryCache_get c k)
       \<and> LRUAsyncMemoryCache_set c k v =
           (case LRUMemoryCache_set c k v of
              Inl e \<Rightarrow> Inl (if e = StopIteration then RuntimeError else e)
            | Inr c' \<Rightarrow> Inr c')
       \<and> LRUAsyncMemoryCache_delete c k = LRUMemoryCache_delete c k
       \<and> SimpleAsyncMemoryCache_set (cache c) k v = SimpleMemoryCache_set (cache c) k v
       \<and> SimpleAsyncMemoryCache_delete (cache c) k = SimpleMemoryCache_delete (cache c) k
       \<and> fst (LRUAsyncMemoryCache_get c k) = dict_get (cache c) (ensure_key_type k)
       \<and> SimpleAsyncMemoryCache_get (cache c) k = dict_get (cache c) (ensure_key_type k)
       \<and> (dict_get (cache c) (ensure_key_type k) = Some a \<longrightarrow>
            (\<exists>c' h'. LRUMemoryCache_get c h k = (Some (next_addr h), c', h') \<and>
               SimpleMemoryCache_get (cache c) h k = (Some (next_addr h), h') \<and>
               next_addr h \<notin> snd ` set (cache c') \<and>
               cells h' (next_addr h) = cells h a \<and>
               observed (snd (snd (LRUMemoryCache_get c' (mutate h' (next_addr h) x) k')))
                        (fst (LRUMemoryCache_get c' (mutate h' (next_addr h) x) k'))
                 = observed (snd (snd (LRUMemoryCache_get c' h' k')))
                        (fst (LRUMemoryCache_get c' h' k')) \<and>
               observed (snd (SimpleMemoryCache_get (cache c) (mutate h' (next_addr h) x) k'))
                        (fst (SimpleMemoryCache_get (cache c) (mutate h' (next_addr h) x) k'))
                 = observed (snd (SimpleMemoryCache_get (cache c) h' k'))
                        (fst (SimpleMemoryCache_get (cache c) h' k'))))"
proof -
  have p1: "fst (snd (LRUMemoryCache_get c h k)) = snd (LRUAsyncMemoryCache_get c k)"
    by (simp add: LRUMemoryCache_get_def LRUAsyncMemoryCache_get_def Let_def copy_def
        split: option.splits)
  have p2: "LRUAsyncMemoryCache_set c k v =
           (case LRUMemoryCache_set c k v of
              Inl e \<Rightarrow> Inl (if e = StopIteration then RuntimeError else e)
            | Inr c' \<Rightarrow> Inr c')"
    by (simp add: LRUMemoryCache_set_def LRUAsyncMemoryCache_set_def split: sum.splits)
  have p3: "LRUAsyncMemoryCache_delete c k = LRUMemoryCache_delete c k"
    by (rule async_delete_eq)
  have p4: "SimpleAsyncMemoryCache_set (cache c) k v = SimpleMemoryCache_set (cache c) k v"
    by (simp add: SimpleAsyncMemoryCache_set_def SimpleMemoryCache_set_def)
  have p5: "SimpleAsyncMemoryCache_delete (cache c) k = SimpleMemoryCache_delete (cache c) k"
    by (simp add: SimpleAsyncMemoryCache_delete_def SimpleMemoryCache_delete_def)
  have p6: "fst (LRUAsyncMemoryCache_get c k) = dict_get (cache c) (ensure_key_type k)"
    by (simp add: LRUAsyncMemoryCache_get_def Let_def split: option.splits)
  have p7: "SimpleAsyncMemoryCache_get (cache c) k = dict_get (cache c) (ensure_key_type k)"
    by (simp add: SimpleAsyncMemoryCache_get_def)
  have p8: "dict_get (cache c) (ensure_key_type k) = Some a \<longrightarrow>
            (\<exists>c' h'. LRUMemoryCache_get c h k = (Some (next_addr h), c', h') \<and>
               SimpleMemoryCache_get (cache c) h k = (Some (next_addr h), h') \<and>
               next_addr h \<notin> snd ` set (cache c') \<and>
               cells h' (next_addr h) = cells h a \<and>
               observed (snd (snd (LRUMemoryCache_get c' (mutate h' (next_addr h) x) k')))
                        (fst (LRUMemoryCache_get c' (mutate h' (next_addr h) x) k'))
                 = observed (snd (snd (LRUMemoryCache_get c' h' k')))
                        (fst (LRUMemoryCache_get c' h' k')) \<and>
               observed (snd (SimpleMemoryCache_get (cache c) (mutate h' (next_addr h) x) k'))
                        (fst (SimpleMemoryCache_get (cache c) (mutate h' (next_addr h) x) k'))
                 = observed (snd (SimpleMemoryCache_get (cache c) h' k'))
                        (fst (SimpleMemoryCache_get (cache c) h' k')))"
  proof
    assume g: "dict_get (cache c) (ensure_key_type k) = Some a"
    let ?s = "ensure_key_type k"
    let ?c' = "c\<lparr>cache := dict_setitem ?s a (AList.delete ?s (cache c))\<rparr>"
    let ?h' = "fst (copy h a)"
    have g1: "LRUMemoryCache_get c h k = (Some (next_addr h), ?c', ?h')"
      using g by (simp add: LRUMemoryCache_get_def Let_def copy_def)
    have g2: "SimpleMemoryCache_get (cache c) h k = (Some (next_addr h), ?h')"
      using g by (simp add: SimpleMemoryCache_get_def copy_def)
    let ?n = "next_addr h"
    have sub: "snd ` set (cache ?c') \<subseteq> snd ` set (cache c)"
      using ran_touch_subset[OF g] by simp
    have n0: "?n \<notin> snd ` set (cache c)" using assms by auto
    have n1: "?n \<notin> snd ` set (cache ?c')" using n0 sub by blast
    have cl: "cells ?h' ?n = cells h a" by (simp add: copy_def)
    have o1: "observed (snd (snd (LRUMemoryCache_get ?c' (mutate ?h' ?n x) k')))
                        (fst (LRUMemoryCache_get ?c' (mutate ?h' ?n x) k'))
                 = observed (snd (snd (LRUMemoryCache_get ?c' ?h' k')))
                        (fst (LRUMemoryCache_get ?c' ?h' k'))"
      unfolding observed_lru_get using mutate_other[OF n1] .
    have o2: "observed (snd (SimpleMemoryCache_get (cache c) (mutate ?h' ?n x) k'))
                        (fst (SimpleMemoryCache_get (cache c) (mutate ?h' ?n x) k'))
                 = observed (snd (SimpleMemoryCache_get (cache c) ?h' k'))
                        (fst (SimpleMemoryCache_get (cache c) ?h' k'))"
      unfolding observed_simple_get using mutate_other[OF n0] .
    from g1 g2 n1 cl o1 o2
    show "\<exists>c' h'. LRUMemoryCache_get c h k = (Some (next_addr h), c', h') \<and>
               SimpleMemoryCache_get (cache c) h k = (Some (next_addr h), h') \<and>
               next_addr h \<notin> snd ` set (cache c') \<and>
               cells h' (next_addr h) = cells h a \<and>
               observed (snd (snd (LRUMemoryCache_get c' (mutate h' (next_addr h) x) k')))
                        (fst (LRUMemoryCache_get c' (mutate h' (next_addr h) x) k'))
                 = observed (snd (snd (LRUMemoryCache_get c' h' k')))
                        (fst (LRUMemoryCache_get c' h' k')) \<and>
               observed (snd (SimpleMemoryCache_get (cache c) (mutate h' (next_addr h) x) k'))
                        (fst (SimpleMemoryCache_get (cache c) (mutate h' (next_addr h) x) k'))
                 = observed (snd (SimpleMemoryCache_get (cache c) h' k'))
                        (fst (SimpleMemoryCache_get (cache c) h' k'))"
      by blast
  qed
  from p1 p2 p3 p4 p5 p6 p7 p8 show ?thesis by blast
qed


theorem sync_get_copies_async_get_aliases_witness:
  "fst (LRUAsyncMemoryCache_get \<lparr>capacity = 2, cache = [(''1'', 0)]\<rparr> (IntKey 1)) =
      dict_get (cache \<lparr>capacity = 2, cache = [(''1'', 0)]\<rparr>) (ensure_key_type (IntKey 1))
   \<and> (\<exists>c' h'. LRUMemoryCache_get \<lparr>capacity = 2, cache = [(''1'', 0)]\<rparr>
          \<lparr>cells = id, next_addr = 1\<rparr> (IntKey 1) =
            (Some (next_addr \<lparr>cells = id, next_addr = 1\<rparr>), c', h') \<and>
        cells h' (next_addr \<lparr>cells = id, next_addr = 1\<rparr>) = cells \<lparr>cells = id, next_addr = 1\<rparr> 0 \<and>
        observed (snd (snd (LRUMemoryCache_get c'
                    (mutate h' (next_addr \<lparr>cells = id, next_addr = 1\<rparr>) 9) (StrKey ''1''))))
                 (fst (LRUMemoryCache_get c'
                    (mutate h' (next_addr \<lparr>cells = id, next_addr = 1\<rparr>) 9) (StrKey ''1'')))
          = observed (snd (snd (LRUMemoryCache_get c' h' (StrKey ''1''))))
                 (fst (LRUMemoryCache_get c' h' (StrKey ''1''))))"
proof -
  let ?c = "\<lparr>capacity = 2, cache = [(''1'', 0::nat)]\<rparr>"
  let ?h = "\<lparr>cells = (id :: nat \<Rightarrow> nat), next_addr = 1\<rparr>"
  have a: "\<forall>a \<in> snd ` set (cache ?c). a < next_addr ?h" by simp
  have g: "dict_get (cache ?c) (ensure_key_type (IntKey 1)) = Some 0" by code_simp
  from sync_get_copies_async_get_aliases[OF a, of "IntKey 1" 0 0 9 "StrKey ''1''"] g
  show ?thesis by blast
qed


text \<open>
  The claim C4 as stated fails: \<open>set\<close> stores the caller's reference, so a caller that
  mutates the object after \<open>set\<close> changes what a later \<open>get\<close> observes (7 instead of the
  0 stored); and for the same hit the synchronous \<open>get\<close> returns a new object (address 1)
  where the asynchronous \<open>get\<close> returns the cached one (address 0).
\<close>

theorem cache_alias_counterexample:
  "observed (snd (SimpleMemoryCache_get (SimpleMemoryCache_set [] (IntKey 1) 0)
               (mutate \<lparr>cells = id, next_addr = 1\<rparr> 0 7) (IntKey 1)))
            (fst (SimpleMemoryCache_get (SimpleMemoryCache_set [] (IntKey 1) 0)
               (mutate \<lparr>cells = id, next_addr = 1\<rparr> 0 7) (IntKey 1))) = Some 7
   \<and> observed (snd (SimpleMemoryCache_get (SimpleMemoryCache_set [] (IntKey 1) 0)
               \<lparr>cells = id, next_addr = 1\<rparr> (IntKey 1)))
            (fst (SimpleMemoryCache_get (SimpleMemoryCache_set [] (IntKey 1) 0)
               \<lparr>cells = id, next_addr = 1\<rparr> (IntKey 1))) = Some 0
   \<and> fst (SimpleMemoryCache_get (SimpleMemoryCache_set [] (IntKey 1) 0)
               \<lparr>cells = id, next_addr = 1\<rparr> (IntKey 1)) = Some 1
   \<and> SimpleAsyncMemoryCache_get (SimpleAsyncMemoryCache_set [] (IntKey 1) 0) (IntKey 1) = Some 0
   \<and> fst (LRUMemoryCache_get \<lparr>capacity = 2, cache = [(''1'', 0)]\<rparr>
               \<lparr>cells = id, next_addr = 1\<rparr> (IntKey 1)) = Some 1
   \<and> fst (LRUAsyncMemoryCache_get \<lparr>capacity = 2, cache = [(''1'', 0)]\<rparr> (IntKey 1)) = Some 0"
  by (simp add: observed_def str_int_1 SimpleMemoryCache_get_def SimpleMemoryCache_set_def
      SimpleAsyncMemoryCache_get_def SimpleAsyncMemoryCache_set_def
      LRUMemoryCache_get_def LRUAsyncMemoryCache_get_def Let_def
      dict_get_def dict_setitem_def copy_def mutate_def)

section \<open>The claims about the level repository\<close>


text \<open>
  C9.  For a dict of level fields (its keys are declared fields of \<open>Level\<close>) that holds
  whole-second \<open>upload_ts\<close> and \<open>update_ts\<close>, a \<open>search_flags\<close> bitmask made of the five
  declared flags and \<open>song_ids\<close>, translating to the search document and back gives the
  dict again: \<open>_from_meili_dict(_make_meili_dict(d)) = d\<close>.  The document is the dict with
  the two timestamps as epoch seconds and the five booleans \<open>epic\<close>, \<open>magic\<close>, \<open>awarded\<close>,
  \<open>legendary\<close>, \<open>mythical\<close> appended; the way back recombines them to the bitmask and
  removes them.
\<close>

theorem meili_dict_round_trip:
  assumes "fst ` set d \<subseteq> set ALL_FIELDS"
    and "dict_get d ''upload_ts'' = Some (PDatetime (Datetime s1 0))"
    and "dict_get d ''update_ts'' = Some (PDatetime (Datetime s2 0))"
    and "dict_get d ''search_flags'' = Some (PInt sf)"
    and "0 \<le> sf" and "sf < 32"
    and "dict_contains ''song_ids'' d"
  shows "make_meili_dict d =
           Inr (dict_setitem ''update_ts'' (PInt s2) (dict_setitem ''upload_ts'' (PInt s1) d)
                @ meili_flags sf)
       \<and> err_bind (make_meili_dict d) from_meili_dict = Inr d"
  using make_meili_dict_full[OF assms(1-4)] from_meili_dict_full[OF assms]
  by (simp add: err_bind_Inr)

theorem meili_dict_round_trip_witness:
  "err_bind (make_meili_dict
      [(''id'', PInt 7), (''name'', PStr ''Cube Rush''), (''user_id'', PInt 5),
       (''custom_song_id'', PNone), (''upload_ts'', PDatetime (Datetime 1700000000 0)),
       (''update_ts'', PDatetime (Datetime 1700000060 0)), (''stars'', PInt 0),
       (''search_flags'', PInt 9), (''song_ids'', PList [PInt 3]), (''deleted'', PBool False)])
     from_meili_dict =
   Inr [(''id'', PInt 7), (''name'', PStr ''Cube Rush''), (''user_id'', PInt 5),
       (''custom_song_id'', PNone), (''upload_ts'', PDatetime (Datetime 1700000000 0)),
       (''update_ts'', PDatetime (Datetime 1700000060 0)), (''stars'', PInt 0),
       (''search_flags'', PInt 9), (''song_ids'', PList [PInt 3]), (''deleted'', PBool False)]"
proof -
  let ?d = "[(''id'', PInt 7), (''name'', PStr ''Cube Rush''), (''user_id'', PInt 5),
       (''custom_song_id'', PNone), (''upload_ts'', PDatetime (Datetime 1700000000 0)),
       (''update_ts'', PDatetime (Datetime 1700000060 0)), (''stars'', PInt 0),
       (''search_flags'', PInt 9), (''song_ids'', PList [PInt 3]), (''deleted'', PBool False)]"
  have 1: "fst ` set ?d \<subseteq> set ALL_FIELDS" by code_simp
  have 2: "dict_get ?d ''upload_ts'' = Some (PDatetime (Datetime 1700000000 0))" by code_simp
  have 3: "dict_get ?d ''update_ts'' = Some (PDatetime (Datetime 1700000060 0))" by code_simp
  have 4: "dict_get ?d ''search_flags'' = Some (PInt 9)" by code_simp
  have 5: "dict_contains ''song_ids'' ?d" by code_simp
  have 6: "(0::int) \<le> 9" "(9::int) < 32" by simp_all
  from meili_dict_round_trip[OF 1 2 3 4 6 5] show ?thesis by blast
qed

text \<open>
  C6.  With \<open>include_deleted=True\<close> the statement that \<open>from_name_and_user_id\<close> sends is
  the empty text and the one that \<open>from_name\<close> sends is \<open>" LIMIT 1"\<close>: the conditional
  expression takes the whole \<open>SELECT\<close> as its first branch.  The store rejects both, so in
  every state, also one that holds a matching soft-deleted level, both reads raise and
  return no record.
\<close>

theorem include_deleted_statement_is_lost:
  "from_name_and_user_id_sql True = ''''
   \<and> from_name_sql True = '' LIMIT 1''
   \<and> from_name_and_user_id s nm uid True = Inl ProgrammingError
   \<and> from_name s nm True = Inl ProgrammingError"
  by (simp add: from_name_and_user_id_def from_name_and_user_id_sql_def from_name_def
      from_name_sql_def mysql_fetch_one_def mysql_fetch_all_def parse_empty
      parse_limit_only[simplified])



section \<open>The claim about the account repository\<close>

text \<open>
  C8.  \<open>from_id\<close> of the account repository: on a cache hit it returns the cached account
  and leaves the state as it is, so the relational store is not asked (\<open>db_queries\<close> is part
  of the state); on a miss it asks the relational store once and returns what \<open>from_db\<close>
  returns; an absent result leaves the cache as it was, a present one is stored in the
  cache under the account's id, which is the key asked for, so that the next lookup hits.
\<close>

theorem account_from_id_cache_then_db:
  "(from_cache s k = Some a \<longrightarrow> account_from_id s k = (Some a, s))
   \<and> (from_cache s k = None \<longrightarrow>
        fst (account_from_id s k) = fst (from_db s k) \<and>
        db_queries (snd (account_from_id s k)) = db_queries s @ [k] \<and>
        accounts_rows (snd (account_from_id s k)) = accounts_rows s \<and>
        (fst (from_db s k) = None \<longrightarrow>
           account_repo (snd (account_from_id s k)) = account_repo s) \<and>
        (\<forall>b. fst (from_db s k) = Some b \<longrightarrow>
           snd (account_from_id s k) = into_cache (snd (from_db s k)) b \<and>
           account_repo (snd (account_from_id s k)) = dict_setitem k b (account_repo s) \<and>
           from_cache (snd (account_from_id s k)) k = Some b))"
proof -
  obtain r s1 where db: "from_db s k = (r, s1)" by (cases "from_db s k")
  from from_db_result[OF db] have s1: "s1 = s\<lparr>db_queries := db_queries s @ [k]\<rparr>"
    and idk: "\<And>b. r = Some b \<Longrightarrow> acc_id b = k" by auto
  have hit: "from_cache s k = Some a \<longrightarrow> account_from_id s k = (Some a, s)"
    by (simp add: account_from_id_def)
  have miss: "from_cache s k = None \<longrightarrow>
        fst (account_from_id s k) = fst (from_db s k) \<and>
        db_queries (snd (account_from_id s k)) = db_queries s @ [k] \<and>
        accounts_rows (snd (account_from_id s k)) = accounts_rows s \<and>
        (fst (from_db s k) = None \<longrightarrow>
           account_repo (snd (account_from_id s k)) = account_repo s) \<and>
        (\<forall>b. fst (from_db s k) = Some b \<longrightarrow>
           snd (account_from_id s k) = into_cache (snd (from_db s k)) b \<and>
           account_repo (snd (account_from_id s k)) = dict_setitem k b (account_repo s) \<and>
           from_cache (snd (account_from_id s k)) k = Some b)"
  proof (cases r)
    case None
    then show ?thesis using db s1 by (simp add: account_from_id_def)
  next
    case (Some b)
    with idk have "acc_id b = k" by simp
    then show ?thesis using db s1 Some
      by (simp add: account_from_id_def into_cache_def from_cache_def dict_get_setitem)
  qed
  from hit miss show ?thesis by blast
qed

theorem account_from_id_cache_then_db_witness:
  "account_from_id example_account_state 5 = (Some example_account, example_account_state)
   \<and> db_queries (snd (account_from_id example_account_state 6)) = [6]
   \<and> from_cache (snd (account_from_id example_account_state 6)) 6
       = fst (from_db example_account_state 6)
   \<and> fst (from_db example_account_state 6) \<noteq> None
   \<and> fst (account_from_id example_account_state 7) = None
   \<and> account_repo (snd (account_from_id example_account_state 7))
       = account_repo example_account_state"
proof -
  let ?s = "example_account_state"
  have h: "from_cache ?s 5 = Some example_account"
    by (simp add: from_cache_def dict_get_def example_account_state_def)
  have m: "from_cache ?s 6 = None" "from_cache ?s 7 = None"
    by (simp_all add: from_cache_def dict_get_def example_account_state_def)
  have n: "fst (from_db ?s 7) = None"
    by (simp add: from_db_def accounts_fetch_one_def example_account_state_def
        example_account_row_def)
  obtain b where b: "fst (from_db ?s 6) = Some b"
    by (simp add: from_db_def accounts_fetch_one_def example_account_state_def
        example_account_row_def)
  have q: "db_queries ?s = []" by (simp add: example_account_state_def)
  have t5: "account_from_id ?s 5 = (Some example_account, ?s)"
    using account_from_id_cache_then_db[of ?s 5 example_account] h by blast
  have t6: "db_queries (snd (account_from_id ?s 6)) = db_queries ?s @ [6]"
    "from_cache (snd (account_from_id ?s 6)) 6 = Some b"
    using account_from_id_cache_then_db[of ?s 6 example_account] m(1) b by blast+
  have t7: "fst (account_from_id ?s 7) = fst (from_db ?s 7)"
    "account_repo (snd (account_from_id ?s 7)) = account_repo ?s"
    using account_from_id_cache_then_db[of ?s 7 example_account] m(2) n by blast+
  from t5 t6 t7 b n q show ?thesis by simp
qed

end
